theory Spec2Isabelle
  imports Complex_Main "HOL-Library.AList" "HOL-Library.Sublist"
begin

section \<open>Values read from the GeoJSONSeq file\<close>

text \<open>
  Every line of the intermediate file is parsed by the JSON reader into Python values:
  \<^verbatim>\<open>None\<close>, \<^verbatim>\<open>bool\<close>, \<^verbatim>\<open>int\<close>, \<^verbatim>\<open>float\<close>, \<^verbatim>\<open>str\<close>, \<^verbatim>\<open>list\<close> and \<^verbatim>\<open>dict\<close>.
  A \<^verbatim>\<open>dict\<close> keeps its keys in insertion order, so it is an association list; the
  payload of a float plays no part in what follows.
\<close>

datatype json =
    JNull
  | JBool bool
  | JInt int
  | JFloat real
  | JStr string
  | JList "json list"
  | JDict "(string \<times> json) list"

text \<open>
  The \<^verbatim>\<open>isinstance\<close> tests of Python. \<^verbatim>\<open>bool\<close> is a subclass of \<^verbatim>\<open>int\<close>, so
  \<^verbatim>\<open>isinstance(True, int)\<close> holds.
\<close>

fun is_None :: "json \<Rightarrow> bool" where
  "is_None JNull = True"
| "is_None _ = False"

fun isinstance_str :: "json \<Rightarrow> bool" where
  "isinstance_str (JStr s) = True"
| "isinstance_str _ = False"

fun isinstance_int :: "json \<Rightarrow> bool" where
  "isinstance_int (JInt i) = True"
| "isinstance_int (JBool b) = True"
| "isinstance_int _ = False"

fun isinstance_float :: "json \<Rightarrow> bool" where
  "isinstance_float (JFloat x) = True"
| "isinstance_float _ = False"

fun isinstance_bool :: "json \<Rightarrow> bool" where
  "isinstance_bool (JBool b) = True"
| "isinstance_bool _ = False"

section \<open>Type inference: \<^verbatim>\<open>get_column_type\<close>\<close>

text \<open>
  \<^verbatim>\<open>
  column_type = 'UNKNOWN'
  if (value is None):
    column_type = 'UNKNOWN'
  if (isinstance(value, str)):
    column_type = 'STRING'
  elif (isinstance(value, int)):
    column_type = 'INTEGER'
  elif (isinstance(value, float)):
    column_type = 'FLOAT'
  elif (isinstance(value, bool)):
    column_type = 'BOOLEAN'

  if (last_type and last_type != column_type):
    if (last_type == 'STRING'):
      column_type = 'STRING'
    elif (last_type == 'FLOAT' and column_type == 'INTEGER'):
      column_type = 'FLOAT'

  return column_type
  \<close>
  \<^verbatim>\<open>last_type\<close> is \<^verbatim>\<open>schema.get(key)\<close>: \<^verbatim>\<open>None\<close> for a key not yet in the schema.
  A string is true in a condition when it is not empty.
\<close>

definition get_column_type :: "json \<Rightarrow> string option \<Rightarrow> string" where
  "get_column_type v last_type =
     (let column_type = ''UNKNOWN'';
          column_type = (if is_None v then ''UNKNOWN'' else column_type);
          column_type =
            (if isinstance_str v then ''STRING''
             else if isinstance_int v then ''INTEGER''
             else if isinstance_float v then ''FLOAT''
             else if isinstance_bool v then ''BOOLEAN''
             else column_type)
      in case last_type of
           None \<Rightarrow> column_type
         | Some lt \<Rightarrow>
             if lt \<noteq> [] \<and> lt \<noteq> column_type then
               (if lt = ''STRING'' then ''STRING''
                else if lt = ''FLOAT'' \<and> column_type = ''INTEGER'' then ''FLOAT''
                else column_type)
             else column_type)"

text \<open>
  The state of one column while the records stream by: line 576 of the source,
  \<^verbatim>\<open>schema[key] = get_column_type(value, schema.get(key))\<close>, applied to the values
  of the column in file order. The column has no entry before its first value.
\<close>

definition column_step :: "string option \<Rightarrow> json \<Rightarrow> string option" where
  "column_step last_type v = Some (get_column_type v last_type)"

definition infer_column :: "json list \<Rightarrow> string option" where
  "infer_column vs = foldl column_step None vs"

text \<open>
  The kinds of JSON value the specification speaks of. For the specification a boolean
  is not an integer.
\<close>

fun is_integer :: "json \<Rightarrow> bool" where
  "is_integer (JInt i) = True"
| "is_integer _ = False"

definition is_number_or_string :: "json \<Rightarrow> bool" where
  "is_number_or_string v = (isinstance_str v \<or> is_integer v \<or> isinstance_float v)"

text \<open>
  The final type of a column as the specification words it: STRING if any value was a
  string; otherwise FLOAT if some value was a float and every other value an integer or
  null; otherwise INTEGER if all non-null values were integers; otherwise BOOLEAN if all
  non-null values were booleans; otherwise UNKNOWN.
\<close>

definition spec_inferred_type :: "json list \<Rightarrow> string" where
  "spec_inferred_type vs =
     (if list_ex isinstance_str vs then ''STRING''
      else if list_ex isinstance_float vs
              \<and> list_all (\<lambda>v. isinstance_float v \<or> is_integer v \<or> is_None v) vs then ''FLOAT''
      else if list_all is_integer (filter (\<lambda>v. \<not> is_None v) vs) then ''INTEGER''
      else if list_all isinstance_bool (filter (\<lambda>v. \<not> is_None v) vs) then ''BOOLEAN''
      else ''UNKNOWN'')"

section \<open>The row streamer: \<^verbatim>\<open>geojson_to_ndjson\<close>\<close>

text \<open>
  A line of the file is one feature, a JSON object. The output row and the schema are
  Python dictionaries: assigning to a key that is present replaces its value in place,
  assigning to a new key appends it, which is what \<^const>\<open>AList.update\<close> does.
  The exceptions a line can raise are values.
\<close>

type_synonym pydict = "(string \<times> json) list"

type_synonym schema = "(string \<times> string) list"

datatype pyerror = KeyError string | TypeError

text \<open>
  \<^verbatim>\<open>properties = line_item.get('properties', {})\<close> followed by
  \<^verbatim>\<open>for key in properties: value = properties[key]\<close>: the pairs the loop visits.
  A feature of GeoJSON has an object or \<^verbatim>\<open>null\<close> here. \<^verbatim>\<open>None\<close>, a number and a
  boolean are not iterable; the first character of a string cannot index the string;
  an empty string and an empty array are iterated without a step. A non-empty array is
  taken as an error as well: Python accepts it only when its elements are integers that
  index the array itself, which no feature writer produces and which would give the row
  keys that are not strings.
\<close>

fun properties_items :: "pydict \<Rightarrow> pyerror + pydict" where
  "properties_items line_item =
     (case map_of line_item ''properties'' of
        None \<Rightarrow> Inr []
      | Some (JDict properties) \<Rightarrow> Inr properties
      | Some (JStr []) \<Rightarrow> Inr []
      | Some (JList []) \<Rightarrow> Inr []
      | Some _ \<Rightarrow> Inl TypeError)"

text \<open>
  \<^verbatim>\<open>
  for key in properties:
    value = properties[key]
    row[key] = value
    schema[key] = get_column_type(value, schema.get(key))
  \<close>
\<close>

fun properties_loop :: "pydict \<Rightarrow> pydict \<times> schema \<Rightarrow> pydict \<times> schema" where
  "properties_loop [] (row, schema) = (row, schema)"
| "properties_loop ((key, v) # properties) (row, schema) =
     properties_loop properties
       (AList.update key v row,
        AList.update key (get_column_type v (map_of schema key)) schema)"

text \<open>
  \<^verbatim>\<open>
  if 'geometry' in columns:
    row[columns['geometry']] = json.dumps(line_item['geometry'], ensure_ascii=False)
  if 'geojson' in columns:
    row[columns['geojson']] = json.dumps(line_item, ensure_ascii=False)
  if 'geojson_geometry' in columns:
    row[columns['geojson_geometry']] = json.dumps(line_item['geometry'], ensure_ascii=False)
  \<close>
  \<^verbatim>\<open>json.dumps\<close> is the serialiser of the standard library, a parameter here.
  \<^verbatim>\<open>line_item['geometry']\<close> raises \<^verbatim>\<open>KeyError\<close> when the feature has no such member.
\<close>

definition row_geometry ::
  "(json \<Rightarrow> string) \<Rightarrow> (string \<times> string) list \<Rightarrow> pydict \<Rightarrow> pydict \<Rightarrow> pyerror + pydict" where
  "row_geometry dumps columns line_item row =
     (case map_of columns ''geometry'' of
        None \<Rightarrow> Inr row
      | Some name \<Rightarrow>
          (case map_of line_item ''geometry'' of
             None \<Rightarrow> Inl (KeyError ''geometry'')
           | Some g \<Rightarrow> Inr (AList.update name (JStr (dumps g)) row)))"

definition row_geojson ::
  "(json \<Rightarrow> string) \<Rightarrow> (string \<times> string) list \<Rightarrow> pydict \<Rightarrow> pydict \<Rightarrow> pydict" where
  "row_geojson dumps columns line_item row =
     (case map_of columns ''geojson'' of
        None \<Rightarrow> row
      | Some name \<Rightarrow> AList.update name (JStr (dumps (JDict line_item))) row)"

definition row_geojson_geometry ::
  "(json \<Rightarrow> string) \<Rightarrow> (string \<times> string) list \<Rightarrow> pydict \<Rightarrow> pydict \<Rightarrow> pyerror + pydict" where
  "row_geojson_geometry dumps columns line_item row =
     (case map_of columns ''geojson_geometry'' of
        None \<Rightarrow> Inr row
      | Some name \<Rightarrow>
          (case map_of line_item ''geometry'' of
             None \<Rightarrow> Inl (KeyError ''geometry'')
           | Some g \<Rightarrow> Inr (AList.update name (JStr (dumps g)) row)))"

definition geometry_columns ::
  "(json \<Rightarrow> string) \<Rightarrow> (string \<times> string) list \<Rightarrow> pydict \<Rightarrow> pydict \<Rightarrow> pyerror + pydict" where
  "geometry_columns dumps columns line_item row =
     (case row_geometry dumps columns line_item row of
        Inl e \<Rightarrow> Inl e
      | Inr row1 \<Rightarrow>
          row_geojson_geometry dumps columns line_item (row_geojson dumps columns line_item row1))"

text \<open>
  The loop over the lines of the file: \<^verbatim>\<open>rows\<close> and \<^verbatim>\<open>schema\<close> are the two
  accumulators. An exception leaves the function before the output file is opened.
\<close>

fun convert_lines ::
  "(json \<Rightarrow> string) \<Rightarrow> (string \<times> string) list \<Rightarrow> pydict list \<Rightarrow> pydict list \<times> schema
     \<Rightarrow> pyerror + (pydict list \<times> schema)" where
  "convert_lines dumps columns [] (rows, schema) = Inr (rows, schema)"
| "convert_lines dumps columns (line_item # lines) (rows, schema) =
     (case properties_items line_item of
        Inl e \<Rightarrow> Inl e
      | Inr properties \<Rightarrow>
          (case properties_loop properties ([], schema) of
             (row, schema') \<Rightarrow>
               (case geometry_columns dumps columns line_item row of
                  Inl e \<Rightarrow> Inl e
                | Inr row' \<Rightarrow> convert_lines dumps columns lines (rows @ [row'], schema'))))"

text \<open>
  \<^verbatim>\<open>
  if 'geometry' in columns:
      schema[columns['geometry']] = 'GEOGRAPHY'
  if 'geojson' in columns:
      schema[columns['geojson']] = 'STRING'
  if 'geojson_geometry' in columns:
      schema[columns['geojson_geometry']] = 'STRING'
  \<close>
\<close>

definition schema_set :: "(string \<times> string) list \<Rightarrow> string \<Rightarrow> string \<Rightarrow> schema \<Rightarrow> schema" where
  "schema_set columns key column_type schema =
     (case map_of columns key of
        None \<Rightarrow> schema
      | Some name \<Rightarrow> AList.update name column_type schema)"

definition schema_geometry :: "(string \<times> string) list \<Rightarrow> schema \<Rightarrow> schema" where
  "schema_geometry columns schema =
     schema_set columns ''geojson_geometry'' ''STRING''
       (schema_set columns ''geojson'' ''STRING''
         (schema_set columns ''geometry'' ''GEOGRAPHY'' schema))"

text \<open>
  The function returns the schema and writes the rows to the output file; the model
  returns both.
\<close>

definition geojson_to_ndjson ::
  "(json \<Rightarrow> string) \<Rightarrow> (string \<times> string) list \<Rightarrow> pydict list
     \<Rightarrow> pyerror + (pydict list \<times> schema)" where
  "geojson_to_ndjson dumps columns lines =
     (case convert_lines dumps columns lines ([], []) of
        Inl e \<Rightarrow> Inl e
      | Inr (rows, schema) \<Rightarrow> Inr (rows, schema_geometry columns schema))"

text \<open>\<^verbatim>\<open>default_column_names = ['geometry', 'geojson', 'geojson_geometry']\<close>\<close>

definition default_column_names :: "string list" where
  "default_column_names = [''geometry'', ''geojson'', ''geojson_geometry'']"

text \<open>The names the configuration gives to the geometry-derived columns it has.\<close>

definition configured_names :: "(string \<times> string) list \<Rightarrow> string list" where
  "configured_names columns = List.map_filter (map_of columns) default_column_names"

text \<open>The values of one property key over the lines of the file, in file order.\<close>

fun column_values :: "string \<Rightarrow> pydict list \<Rightarrow> json list" where
  "column_values key [] = []"
| "column_values key (line_item # lines) =
     (case properties_items line_item of
        Inl e \<Rightarrow> column_values key lines
      | Inr properties \<Rightarrow> map snd (filter (\<lambda>(k, v). k = key) properties) @ column_values key lines)"

section \<open>Safe file paths: \<^verbatim>\<open>get_safe_filepath\<close>\<close>

text \<open>
  The file system is the set of paths for which \<^verbatim>\<open>os.path.exists\<close> holds.
  \<^verbatim>\<open>return can_overwrite or not os.path.exists(filepath)\<close>
\<close>

definition is_output_file_safe :: "string set \<Rightarrow> string \<Rightarrow> bool \<Rightarrow> bool" where
  "is_output_file_safe existing filepath can_overwrite =
     (can_overwrite \<or> filepath \<notin> existing)"

text \<open>
  The format \<^verbatim>\<open>{i:02d}\<close> of a counter that is never negative: the decimal numeral of
  \<^verbatim>\<open>i\<close>, filled with zeros on the left up to two characters.
\<close>

definition digit_char :: "nat \<Rightarrow> char" where
  "digit_char d = ''0123456789'' ! d"

fun str_nat :: "nat \<Rightarrow> string" where
  "str_nat n = (if n < 10 then [digit_char n] else str_nat (n div 10) @ [digit_char (n mod 10)])"

declare str_nat.simps [simp del]

definition format_02d :: "nat \<Rightarrow> string" where
  "format_02d i = (let s = str_nat i in replicate (2 - length s) (CHR ''0'') @ s)"

text \<open>The number a string of decimal digits denotes, to read a suffix back.\<close>

definition digit_value :: "char \<Rightarrow> nat" where
  "digit_value c = of_char c - 48"

definition decimal_value :: "string \<Rightarrow> nat" where
  "decimal_value s = foldl (\<lambda>a c. 10 * a + digit_value c) 0 s"

text \<open>
  \<^verbatim>\<open>
  path_root, extension = os.path.splitext(initial_filepath)
  i = 0
  if not is_candidate:
    i = 1
    initial_filepath = f'{path_root}_01{extension}'

  while not is_output_file_safe(initial_filepath, can_overwrite):
    i += 1
    initial_filepath = f'{path_root}_{i:02d}{extension}'

  return initial_filepath
  \<close>
  \<^verbatim>\<open>os.path.splitext\<close> belongs to the standard library and is a parameter. The loop
  has no bound of its own: a run that never leaves it is the value \<^const>\<open>None\<close>.
\<close>

partial_function (option) safe_filepath_loop ::
  "string set \<Rightarrow> bool \<Rightarrow> string \<Rightarrow> string \<Rightarrow> nat \<Rightarrow> string \<Rightarrow> string option" where
  "safe_filepath_loop existing can_overwrite path_root extension i initial_filepath =
     (if \<not> is_output_file_safe existing initial_filepath can_overwrite
      then safe_filepath_loop existing can_overwrite path_root extension (i + 1)
             (path_root @ ''_'' @ format_02d (i + 1) @ extension)
      else Some initial_filepath)"

declare safe_filepath_loop.simps [code]

definition get_safe_filepath ::
  "(string \<Rightarrow> string \<times> string) \<Rightarrow> string set \<Rightarrow> string \<Rightarrow> bool \<Rightarrow> bool \<Rightarrow> string option" where
  "get_safe_filepath splitext existing initial_filepath can_overwrite is_candidate =
     (case splitext initial_filepath of
        (path_root, extension) \<Rightarrow>
          if \<not> is_candidate
          then safe_filepath_loop existing can_overwrite path_root extension 1
                 (path_root @ ''_01'' @ extension)
          else safe_filepath_loop existing can_overwrite path_root extension 0 initial_filepath)"

text \<open>The path with the number \<open>n\<close> put before the extension.\<close>

definition numbered_path :: "(string \<Rightarrow> string \<times> string) \<Rightarrow> string \<Rightarrow> nat \<Rightarrow> string" where
  "numbered_path splitext filepath n =
     fst (splitext filepath) @ ''_'' @ format_02d n @ snd (splitext filepath)"

text \<open>
  What \<^verbatim>\<open>os.path.splitext\<close> does on POSIX, for the evaluation of examples: the
  extension starts at the last dot of the last path component, unless only dots stand
  before it in that component.
\<close>

definition posix_splitext :: "string \<Rightarrow> string \<times> string" where
  "posix_splitext p =
     (let name = rev (takeWhile (\<lambda>c. c \<noteq> CHR ''/'') (rev p));
          ext = rev (takeWhile (\<lambda>c. c \<noteq> CHR ''.'') (rev name));
          stem = take (length name - length ext - 1) name
      in if CHR ''.'' \<in> set name \<and> list_ex (\<lambda>c. c \<noteq> CHR ''.'') stem
         then (take (length p - length ext - 1) p, CHR ''.'' # ext)
         else (p, []))"

section \<open>The schema files: \<^verbatim>\<open>save_schema_files\<close>\<close>

text \<open>\<^verbatim>\<open>sep.join(xs)\<close> of Python.\<close>

fun join :: "string \<Rightarrow> string list \<Rightarrow> string" where
  "join sep [] = []"
| "join sep [x] = x"
| "join sep (x # y # ys) = x @ sep @ join sep (y # ys)"

text \<open>
  \<^verbatim>\<open>
  schema_text = ''
  unknown_columns = []
  for key in schema.keys():
    schema_text += key + ":" + schema[key] + ",\n"
    if (schema[key] == 'UNKNOWN'):
      unknown_columns.append(key)
  \<close>
  The schema is a dictionary, so the loop visits each key once, with its type.
\<close>

fun schema_text_loop :: "schema \<Rightarrow> string \<times> string list \<Rightarrow> string \<times> string list" where
  "schema_text_loop [] (schema_text, unknown_columns) = (schema_text, unknown_columns)"
| "schema_text_loop ((key, column_type) # schema) (schema_text, unknown_columns) =
     schema_text_loop schema
       (schema_text @ key @ '':'' @ column_type @ '','' @ [CHR 0x0A],
        if column_type = ''UNKNOWN'' then unknown_columns @ [key] else unknown_columns)"

text \<open>
  The warning printed at the end:
  \<^verbatim>\<open>
  print((
    '\n!!!!!!!!!!!!!!!!!!!!!!!!!!!!! WARNING !!!!!!!!!!!!!!!!!!!!!!!!!!!!!!\n'
    'Schema has one or more columns whose values could not be determined:\n'
    f'\t\t{", ".join(unknown_columns)}\n'
    'Edit the schema files and enter the proper datatype(s) before using them'
  ))
  \<close>
\<close>

definition warning_text :: "string list \<Rightarrow> string" where
  "warning_text unknown_columns =
     [CHR 0x0A] @ ''!!!!!!!!!!!!!!!!!!!!!!!!!!!!! WARNING !!!!!!!!!!!!!!!!!!!!!!!!!!!!!!'' @ [CHR 0x0A]
     @ ''Schema has one or more columns whose values could not be determined:'' @ [CHR 0x0A]
     @ [CHR 0x09, CHR 0x09] @ join '', '' unknown_columns @ [CHR 0x0A]
     @ ''Edit the schema files and enter the proper datatype(s) before using them''"

text \<open>
  What a call leaves behind: the two files it wrote, with what it wrote to them, and
  the warning it printed, if it printed one. \<^verbatim>\<open>json.dump(schema, json_file)\<close> is
  the serialiser of the standard library; the model keeps the dictionary it is given.
\<close>

record schema_files =
  json_file :: string
  json_dumped :: schema
  text_file :: string
  text_written :: string
  printed_warning :: "string option"

text \<open>
  \<^verbatim>\<open>
  json_filepath = get_safe_filepath(path_root + '_SCHEMA.json', can_overwrite)
  with open(json_filepath, 'w+') as json_file:
    json.dump(schema, json_file)
  plaintext_filepath = get_safe_filepath(path_root + '_SCHEMA.txt', can_overwrite)
  ...
  # Remove trailing comma and newline
  schema_text = schema_text[:-2]
  with open(plaintext_filepath, 'w+') as text_file:
    text_file.write(schema_text)
  if len(unknown_columns) > 0:
    print(...)
  \<close>
  The second path is looked for after the first file exists.
\<close>

definition save_schema_files ::
  "(string \<Rightarrow> string \<times> string) \<Rightarrow> string set \<Rightarrow> schema \<Rightarrow> string \<Rightarrow> bool \<Rightarrow> schema_files option" where
  "save_schema_files splitext existing schema path_root can_overwrite =
     (case get_safe_filepath splitext existing (path_root @ ''_SCHEMA.json'') can_overwrite True of
        None \<Rightarrow> None
      | Some json_filepath \<Rightarrow>
          (case get_safe_filepath splitext (insert json_filepath existing)
                  (path_root @ ''_SCHEMA.txt'') can_overwrite True of
             None \<Rightarrow> None
           | Some plaintext_filepath \<Rightarrow>
               (case schema_text_loop schema ([], []) of
                  (schema_text, unknown_columns) \<Rightarrow>
                    Some \<lparr> json_file = json_filepath,
                           json_dumped = schema,
                           text_file = plaintext_filepath,
                           text_written = take (length schema_text - 2) schema_text,
                           printed_warning =
                             (if length unknown_columns > 0
                              then Some (warning_text unknown_columns) else None) \<rparr>)))"

section \<open>Argument validation: \<^verbatim>\<open>get_arg_errors\<close>\<close>

text \<open>
  The parsed command line (\<^verbatim>\<open>argparse.Namespace\<close>). An option that was not given is
  \<^verbatim>\<open>None\<close>, but for \<^verbatim>\<open>--convert_options\<close>, whose default is the empty string.
\<close>

record args =
  arg_source :: string
  arg_extension :: "string option"
  arg_convert_options :: string
  arg_output_directory :: "string option"
  arg_output_filepath :: "string option"
  arg_force_overwrite :: bool
  arg_create_parents :: bool

text \<open>
  What the checks ask of the machine: the regular files, the directories, and the files
  \<^verbatim>\<open>gdal.OpenEx\<close> opens without an exception (\<^verbatim>\<open>is_supported_geofile\<close>).
\<close>

record filesystem =
  fs_files :: "string set"
  fs_directories :: "string set"
  fs_geofiles :: "string set"

definition fs_paths :: "filesystem \<Rightarrow> string set" where
  "fs_paths fs = fs_files fs \<union> fs_directories fs"

definition is_supported_geofile :: "filesystem \<Rightarrow> string \<Rightarrow> bool" where
  "is_supported_geofile fs filepath = (filepath \<in> fs_geofiles fs)"

text \<open>
  The function returns the description of the first problem, a string. The problems
  are a datatype here, and \<open>error_message\<close> gives their text.
\<close>

datatype arg_error =
    EmptySource
  | MissingSource string
  | ExtensionWithFile
  | ExtensionRequired
  | UnsupportedSource string
  | ReservedOption string
  | MissingOutputDirectory string
  | Exiting
  | MissingFileDirectory string

fun error_message :: "arg_error \<Rightarrow> string" where
  "error_message EmptySource = ''Invalid Source: source cannot be an empty string.''"
| "error_message (MissingSource source_path) =
     ''Invalid Source: '' @ [CHR 0x22] @ source_path @ [CHR 0x22] @ '' does not exist.''"
| "error_message ExtensionWithFile =
     ''Invalid Option: The --extension / -e option cannot be used when the source path is to a file.''"
| "error_message ExtensionRequired =
     ''Missing Option: --extension / -e is required when the source path is to a directory.''"
| "error_message (UnsupportedSource source_path) =
     ''Invalid Source: '' @ [CHR 0x22] @ source_path @ [CHR 0x22]
     @ '' is not recognized as a supported geofile format by gdal.''"
| "error_message (ReservedOption option) =
     ''Invalid Option: '' @ [CHR 0x22] @ option @ [CHR 0x22]
     @ '' is reserved and cannot be used within --convert_options / -v''"
| "error_message (MissingOutputDirectory d) =
     ''Invalid Output Path: '' @ [CHR 0x22] @ d @ [CHR 0x22] @ '' does not exist. ''
     @ ''Use the --create_parents option to create missing directories and ''
     @ ''their parents during execution.''"
| "error_message Exiting = ''Exiting''"
| "error_message (MissingFileDirectory f) =
     ''Invalid Output File: Cannot create '' @ [CHR 0x22] @ f @ [CHR 0x22] @ '' because ''
     @ ''its directory does not exists. Use the --create_parents option to ''
     @ ''create missing directories and their parents during execution.''"

text \<open>
  \<^verbatim>\<open>
  if not source_path:
    return 'Invalid Source: source cannot be an empty string.'
  if not os.path.exists(source_path):
    return f'Invalid Source: "{ source_path }" does not exist.'
  if should_be_dir:
    if os.path.isfile(source_path):
      return ('Invalid Option: The --extension / -e option cannot be used ...')
  else:
    if os.path.isdir(source_path):
      return ('Missing Option: --extension / -e is required ...')
    elif not is_supported_geofile(source_path):
      return (f'Invalid Source: "{ source_path }" is not recognized ...')
  \<close>
\<close>

definition get_source_errors :: "filesystem \<Rightarrow> string \<Rightarrow> bool \<Rightarrow> arg_error option" where
  "get_source_errors fs source_path should_be_dir =
     (if source_path = [] then Some EmptySource
      else if source_path \<notin> fs_paths fs then Some (MissingSource source_path)
      else if should_be_dir then
        (if source_path \<in> fs_files fs then Some ExtensionWithFile else None)
      else if source_path \<in> fs_directories fs then Some ExtensionRequired
      else if \<not> is_supported_geofile fs source_path then Some (UnsupportedSource source_path)
      else None)"

text \<open>
  \<^verbatim>\<open>reserved_convert_options = ['-f', '-of', '-t_srs']\<close> and the check
  \<^verbatim>\<open>
  if args.convert_options:
    for option in reserved_convert_options:
      if option in args.convert_options:
        return (f'Invalid Option: "{option}" is reserved ...')
  \<close>
  \<^verbatim>\<open>option in args.convert_options\<close> on two strings tests for a substring, which is
  \<^const>\<open>sublist\<close>.
\<close>

definition reserved_convert_options :: "string list" where
  "reserved_convert_options = [''-f'', ''-of'', ''-t_srs'']"

definition reserved_option_used :: "string \<Rightarrow> string option" where
  "reserved_option_used convert_options =
     (if convert_options \<noteq> []
      then find (\<lambda>option. sublist option convert_options) reserved_convert_options
      else None)"

text \<open>\<^verbatim>\<open>return can_create_parents or os.path.exists(dir_path)\<close>\<close>

definition is_output_directory_safe :: "filesystem \<Rightarrow> string \<Rightarrow> bool \<Rightarrow> bool" where
  "is_output_directory_safe fs dir_path can_create_parents =
     (can_create_parents \<or> dir_path \<in> fs_paths fs)"

text \<open>
  A call returns a value, raises an exception, or never returns.
\<close>

datatype 'a outcome = Returns 'a | Raises string | Diverges

text \<open>
  The prompt of \<^verbatim>\<open>get_output_file_args_errors\<close> reads lines from the console until
  one is an answer; the lines the user types are a list, and \<^verbatim>\<open>input\<close> raises
  \<^verbatim>\<open>EOFError\<close> at its end. The result is \<^verbatim>\<open>do_exit\<close>.
  \<^verbatim>\<open>
  while True:
    answer = input(...)
    if answer == '1':
        break
    elif answer == '2':
        break
    elif not answer or answer == '3':
        do_exit = True
        break
  \<close>
\<close>

fun prompt_loop :: "string list \<Rightarrow> bool option" where
  "prompt_loop [] = None"
| "prompt_loop (answer # answers) =
     (if answer = ''1'' then Some False
      else if answer = ''2'' then Some False
      else if answer = [] \<or> answer = ''3'' then Some True
      else prompt_loop answers)"

text \<open>
  \<^verbatim>\<open>
  if output_filepath:
    if is_output_file_safe(output_filepath, can_overwrite) is False:
      safe_file = get_safe_filepath(output_filepath)
      ... the prompt ...
      if do_exit:
        return 'Exiting'
    elif not is_output_directory_safe(
        os.path.splitext(output_filepath)[0],
        can_create_parents):
      return (f'Invalid Output File: Cannot create "{output_filepath}" ...')
  \<close>
\<close>

definition get_output_file_args_errors ::
  "filesystem \<Rightarrow> (string \<Rightarrow> string \<times> string) \<Rightarrow> string list
     \<Rightarrow> string option \<Rightarrow> bool \<Rightarrow> bool \<Rightarrow> arg_error option outcome" where
  "get_output_file_args_errors fs splitext answers output_filepath can_overwrite can_create_parents =
     (case output_filepath of
        None \<Rightarrow> Returns None
      | Some filepath \<Rightarrow>
          if filepath = [] then Returns None
          else if \<not> is_output_file_safe (fs_paths fs) filepath can_overwrite then
            (case get_safe_filepath splitext (fs_paths fs) filepath False True of
               None \<Rightarrow> Diverges
             | Some safe_file \<Rightarrow>
                 (case prompt_loop answers of
                    None \<Rightarrow> Raises ''EOFError''
                  | Some do_exit \<Rightarrow> if do_exit then Returns (Some Exiting) else Returns None))
          else if \<not> is_output_directory_safe fs (fst (splitext filepath)) can_create_parents
          then Returns (Some (MissingFileDirectory filepath))
          else Returns None)"

text \<open>
  \<^verbatim>\<open>
  source_errors = get_source_errors(args.source, args.extension is not None)
  if source_errors:
    return source_errors
  if args.convert_options:
    for option in reserved_convert_options: ...
  if (args.output_directory
      and not is_output_directory_safe(args.output_directory, args.create_parents)):
    return (f'Invalid Output Path: "{ args.output_directory }" does not exist. ...')
  output_file_path_errors = get_output_file_args_errors(
    args.output_filepath, args.force_overwrite, args.create_parents)
  if output_file_path_errors:
    return output_file_path_errors
  \<close>
  Every message is a non-empty string, so \<^verbatim>\<open>if source_errors\<close> holds for each.
\<close>

definition get_arg_errors ::
  "filesystem \<Rightarrow> (string \<Rightarrow> string \<times> string) \<Rightarrow> string list \<Rightarrow> args \<Rightarrow> arg_error option outcome" where
  "get_arg_errors fs splitext answers a =
     (case get_source_errors fs (arg_source a) (arg_extension a \<noteq> None) of
        Some source_errors \<Rightarrow> Returns (Some source_errors)
      | None \<Rightarrow>
          (case reserved_option_used (arg_convert_options a) of
             Some option \<Rightarrow> Returns (Some (ReservedOption option))
           | None \<Rightarrow>
               (case arg_output_directory a of
                  Some d \<Rightarrow>
                    if d \<noteq> [] \<and> \<not> is_output_directory_safe fs d (arg_create_parents a)
                    then Returns (Some (MissingOutputDirectory d))
                    else get_output_file_args_errors fs splitext answers
                           (arg_output_filepath a) (arg_force_overwrite a) (arg_create_parents a)
                | None \<Rightarrow>
                    get_output_file_args_errors fs splitext answers
                      (arg_output_filepath a) (arg_force_overwrite a) (arg_create_parents a))))"

text \<open>
  The first statements of \<^verbatim>\<open>main\<close>:
  \<^verbatim>\<open>
  arg_error = get_arg_errors(args)
  if arg_error:
    sys.exit(arg_error)
  \<close>
  \<^verbatim>\<open>sys.exit\<close> with a string prints it and ends the process with status 1, before any
  directory is made and any file converted; otherwise \<^verbatim>\<open>main\<close> goes on.
\<close>

datatype main_result = SysExit string nat | GoesOn | Uncaught string | NoReturn

definition main_validation ::
  "filesystem \<Rightarrow> (string \<Rightarrow> string \<times> string) \<Rightarrow> string list \<Rightarrow> args \<Rightarrow> main_result" where
  "main_validation fs splitext answers a =
     (case get_arg_errors fs splitext answers a of
        Returns None \<Rightarrow> GoesOn
      | Returns (Some arg_error) \<Rightarrow>
          if error_message arg_error \<noteq> [] then SysExit (error_message arg_error) 1 else GoesOn
      | Raises e \<Rightarrow> Uncaught e
      | Diverges \<Rightarrow> NoReturn)"

section \<open>Properties of the type inference\<close>

lemma get_column_type_first:
  "get_column_type v None =
     (if isinstance_str v then ''STRING''
      else if isinstance_int v then ''INTEGER''
      else if isinstance_float v then ''FLOAT'' else ''UNKNOWN'')"
  by (cases v) (simp_all add: get_column_type_def Let_def)

lemma get_column_type_after_string [simp]:
  "get_column_type v (Some ''STRING'') = ''STRING''"
  by (simp add: get_column_type_def Let_def)

lemma get_column_type_string_value [simp]:
  "get_column_type (JStr s) last_type = ''STRING''"
  by (cases last_type) (simp_all add: get_column_type_def Let_def)

lemma get_column_type_float_value:
  "get_column_type (JFloat x) last_type = (if last_type = Some ''STRING'' then ''STRING'' else ''FLOAT'')"
  by (cases last_type) (auto simp add: get_column_type_def Let_def)

lemma get_column_type_int_value:
  "get_column_type (JInt i) last_type =
     (if last_type = Some ''STRING'' then ''STRING''
      else if last_type = Some ''FLOAT'' then ''FLOAT'' else ''INTEGER'')"
  by (cases last_type) (auto simp add: get_column_type_def Let_def)

lemma get_column_type_null_value:
  "get_column_type JNull last_type = (if last_type = Some ''STRING'' then ''STRING'' else ''UNKNOWN'')"
  by (cases last_type) (auto simp add: get_column_type_def Let_def)

lemma infer_column_snoc:
  "infer_column (vs @ [v]) = Some (get_column_type v (infer_column vs))"
  by (simp add: infer_column_def column_step_def)

lemma infer_column_Nil [simp]: "infer_column [] = None"
  by (simp add: infer_column_def)

lemma infer_column_nulls:
  "infer_column (replicate n JNull) = (if n = 0 then None else Some ''UNKNOWN'')"
proof (induction n)
  case 0
  show ?case by simp
next
  case (Suc n)
  have "replicate (Suc n) JNull = replicate n JNull @ [JNull]"
    by (simp add: replicate_append_same)
  then have "infer_column (replicate (Suc n) JNull)
      = Some (get_column_type JNull (infer_column (replicate n JNull)))"
    by (simp only: infer_column_snoc)
  with Suc show ?case
    by (simp add: get_column_type_null_value)
qed

lemma infer_column_numbers_strings:
  assumes "list_all is_number_or_string vs"
  shows "infer_column (replicate n JNull @ vs) =
     (if n = 0 \<and> vs = [] then None
      else Some (if list_ex isinstance_str vs then ''STRING''
                 else if list_ex isinstance_float vs then ''FLOAT''
                 else if vs \<noteq> [] then ''INTEGER'' else ''UNKNOWN''))"
  using assms
proof (induction vs rule: rev_induct)
  case Nil
  show ?case by (simp add: infer_column_nulls)
next
  case (snoc v vs)
  then have IH: "infer_column (replicate n JNull @ vs) =
     (if n = 0 \<and> vs = [] then None
      else Some (if list_ex isinstance_str vs then ''STRING''
                 else if list_ex isinstance_float vs then ''FLOAT''
                 else if vs \<noteq> [] then ''INTEGER'' else ''UNKNOWN''))"
    by simp
  from snoc.prems have v: "is_number_or_string v" by simp
  have step: "infer_column (replicate n JNull @ vs @ [v])
      = Some (get_column_type v (infer_column (replicate n JNull @ vs)))"
    using infer_column_snoc [of "replicate n JNull @ vs" v] by simp
  show ?case
  proof (cases v)
    case (JStr s)
    then show ?thesis using step by simp
  next
    case (JInt i)
    then show ?thesis using step IH
      by (simp add: get_column_type_int_value)
  next
    case (JFloat x)
    then show ?thesis using step IH
      by (simp add: get_column_type_float_value)
  qed (use v in \<open>simp_all add: is_number_or_string_def\<close>)
qed


text \<open>
  C5: three records whose column \<^verbatim>\<open>pop\<close> holds 5, 7.5 and "n/a" in that order give
  \<^verbatim>\<open>pop\<close> the type STRING, on the column alone and through the whole conversion
  (here with the default configuration of the command line, a geometry column).
\<close>

theorem pop_column_is_string:
  "infer_column [JInt 5, JFloat 7.5, JStr ''n/a''] = Some ''STRING''
   \<and> (case geojson_to_ndjson dumps [(''geometry'', ''geometry'')]
         [[(''type'', JStr ''Feature''), (''properties'', JDict [(''pop'', JInt 5)]), (''geometry'', JNull)],
          [(''type'', JStr ''Feature''), (''properties'', JDict [(''pop'', JFloat 7.5)]), (''geometry'', JNull)],
          [(''type'', JStr ''Feature''), (''properties'', JDict [(''pop'', JStr ''n/a'')]), (''geometry'', JNull)]]
       of Inl e \<Rightarrow> None | Inr (rows, schema) \<Rightarrow> map_of schema ''pop'') = Some ''STRING''"
  by (simp add: infer_column_def column_step_def get_column_type_float_value
      get_column_type_int_value geojson_to_ndjson_def geometry_columns_def row_geometry_def
      row_geojson_def row_geojson_geometry_def schema_geometry_def schema_set_def)

text \<open>
  Where the code does what the specification says of the final type: on a column of
  any number of nulls followed by at least one value, all of them strings, integers
  and floats.
\<close>

lemma spec_inferred_type_numbers_strings:
  assumes "list_all is_number_or_string vs" and "vs \<noteq> []"
  shows "spec_inferred_type (replicate n JNull @ vs) =
     (if list_ex isinstance_str vs then ''STRING''
      else if list_ex isinstance_float vs then ''FLOAT'' else ''INTEGER'')"
proof -
  have nulls: "\<not> list_ex isinstance_str (replicate n JNull)"
    "\<not> list_ex isinstance_float (replicate n JNull)"
    "list_all (\<lambda>v. isinstance_float v \<or> is_integer v \<or> is_None v) (replicate n JNull)"
    "filter (\<lambda>v. \<not> is_None v) (replicate n JNull) = []"
    by (simp_all add: list_ex_iff list_all_iff)
  have all: "\<not> list_ex isinstance_str vs \<Longrightarrow>
      list_all (\<lambda>v. isinstance_float v \<or> is_integer v \<or> is_None v) vs"
    using assms(1) by (auto simp add: list_all_iff list_ex_iff is_number_or_string_def)
  have ints: "\<not> list_ex isinstance_str vs \<Longrightarrow> \<not> list_ex isinstance_float vs \<Longrightarrow>
      list_all is_integer (filter (\<lambda>v. \<not> is_None v) vs)"
    using assms(1) by (auto simp add: list_all_iff list_ex_iff is_number_or_string_def)
  show ?thesis
    using nulls all ints by (simp add: spec_inferred_type_def)
qed

lemma infer_column_agrees_with_specification:
  assumes "list_all is_number_or_string vs" and "vs \<noteq> []"
  shows "infer_column (replicate n JNull @ vs) = Some (spec_inferred_type (replicate n JNull @ vs))"
  using infer_column_numbers_strings [OF assms(1), of n]
    spec_inferred_type_numbers_strings [OF assms, of n] assms(2)
  by simp

text \<open>
  C1: the final type of a column is STRING if any value was a string, otherwise FLOAT
  if some value was a float and the others integers or null, otherwise INTEGER if all
  non-null values were integers, otherwise BOOLEAN if all non-null values were
  booleans. The code does not do this on the column 5, null, which it ends on UNKNOWN
  where INTEGER is due, nor on the column true, which it ends on INTEGER where BOOLEAN
  is due.
\<close>

theorem integer_then_null_infers_unknown:
  "infer_column [JInt 5, JNull] = Some ''UNKNOWN''
   \<and> spec_inferred_type [JInt 5, JNull] = ''INTEGER''
   \<and> infer_column [JBool True] = Some ''INTEGER''
   \<and> spec_inferred_type [JBool True] = ''BOOLEAN''"
  by (simp add: infer_column_def column_step_def get_column_type_int_value
      get_column_type_null_value get_column_type_first spec_inferred_type_def)

text \<open>
  C2: one merge step. The state STRING is kept whatever follows, FLOAT absorbs an
  integer, an integer state becomes FLOAT on a float, and UNKNOWN is replaced by the
  classification of the next value.
\<close>

lemma merge_step_kept_parts:
  "get_column_type v (Some ''STRING'') = ''STRING''"
  "get_column_type (JInt i) (Some ''FLOAT'') = ''FLOAT''"
  "get_column_type (JFloat x) (Some ''INTEGER'') = ''FLOAT''"
  "get_column_type v (Some ''UNKNOWN'') = get_column_type v None"
  by (simp_all add: get_column_type_int_value get_column_type_float_value)
     (cases v; simp add: get_column_type_def Let_def)

text \<open>
  C2, the part the code does not keep: a null value that follows the state INTEGER or
  FLOAT replaces it by UNKNOWN.
\<close>

theorem null_downgrades_concrete_type:
  "get_column_type JNull (Some ''INTEGER'') = ''UNKNOWN''
   \<and> get_column_type JNull (Some ''FLOAT'') = ''UNKNOWN''"
  by (simp add: get_column_type_null_value)

text \<open>
  C3: the fold depends on the order of the values. The values null and 5 give INTEGER in
  this order and UNKNOWN in the other.
\<close>

theorem null_position_changes_type:
  "infer_column [JNull, JInt 5] = Some ''INTEGER''
   \<and> infer_column [JInt 5, JNull] = Some ''UNKNOWN''"
  by (simp add: infer_column_def column_step_def get_column_type_int_value
      get_column_type_null_value)

text \<open>
  Without nulls the order plays no part: two columns of strings, integers and floats
  with the same values end on the same type.
\<close>

lemma infer_column_order_independent_without_null:
  assumes "list_all is_number_or_string vs" and "set ws = set vs"
  shows "infer_column ws = infer_column vs"
proof -
  from assms have ws: "list_all is_number_or_string ws"
    by (simp add: list_all_iff)
  have ex: "list_ex P ws = list_ex P vs" for P :: "json \<Rightarrow> bool"
    using assms(2) by (simp add: list_ex_iff)
  have ne: "(ws = []) = (vs = [])"
    using assms(2) by (metis set_empty)
  show ?thesis
    using infer_column_numbers_strings [OF ws, of 0]
      infer_column_numbers_strings [OF assms(1), of 0]
    by (simp add: ex ne)
qed



section \<open>Properties of \<^verbatim>\<open>get_safe_filepath\<close>\<close>

lemma digit_value_digit_char: "d < 10 \<Longrightarrow> digit_value (digit_char d) = d"
proof -
  assume "d < 10"
  then have "d \<in> {0,1,2,3,4,5,6,7,8,9}" by auto
  then show ?thesis
    by (auto simp add: digit_value_def digit_char_def)
qed

lemma decimal_value_snoc: "decimal_value (s @ [c]) = 10 * decimal_value s + digit_value c"
  by (simp add: decimal_value_def)

lemma decimal_value_str_nat: "decimal_value (str_nat n) = n"
proof (induction n rule: str_nat.induct)
  case (1 n)
  show ?case
  proof (cases "n < 10")
    case True
    then show ?thesis
      by (subst str_nat.simps) (simp add: decimal_value_def digit_value_digit_char)
  next
    case False
    with 1 have "decimal_value (str_nat (n div 10)) = n div 10" by simp
    with False show ?thesis
      by (subst str_nat.simps) (simp add: decimal_value_snoc digit_value_digit_char)
  qed
qed

lemma decimal_value_zeros: "decimal_value (replicate k (CHR ''0'') @ s) = decimal_value s"
proof (induction k)
  case 0 show ?case by simp
next
  case (Suc k)
  have "foldl (\<lambda>a c. 10 * a + digit_value c) 0 (CHR ''0'' # replicate k (CHR ''0'') @ s)
      = foldl (\<lambda>a c. 10 * a + digit_value c) 0 (replicate k (CHR ''0'') @ s)"
    by (simp add: digit_value_def)
  with Suc show ?case by (simp add: decimal_value_def)
qed

lemma decimal_value_format_02d: "decimal_value (format_02d n) = n"
  by (simp add: format_02d_def Let_def decimal_value_zeros decimal_value_str_nat)

lemma length_format_02d: "2 \<le> length (format_02d n)"
  by (simp add: format_02d_def Let_def)

lemma format_examples:
  "format_02d 1 = ''01''" "format_02d 2 = ''02''" "format_02d 99 = ''99''" "format_02d 100 = ''100''"
  by code_simp+

lemma format_02d_Suc_0: "format_02d (Suc 0) = ''01''"
  using format_examples(1) by simp


lemma str_nat_nonempty: "str_nat n \<noteq> []"
  by (subst str_nat.simps) simp

lemma length_str_nat_ge2: "10 \<le> n \<Longrightarrow> 2 \<le> length (str_nat n)"
  by (subst str_nat.simps) (use str_nat_nonempty [of "n div 10"] in \<open>cases "str_nat (n div 10)"; simp\<close>)

lemma format_02d_small: "n < 10 \<Longrightarrow> format_02d n = [CHR ''0'', digit_char n]"
  by (simp add: format_02d_def str_nat.simps [of n])

lemma format_02d_large: "10 \<le> n \<Longrightarrow> format_02d n = str_nat n"
  using length_str_nat_ge2 [of n] by (simp add: format_02d_def Let_def)

lemma inj_format_02d: "format_02d m = format_02d n \<Longrightarrow> m = n"
  by (metis decimal_value_format_02d)

lemma numbered_path_inj: "numbered_path splitext p m = numbered_path splitext p n \<Longrightarrow> m = n"
  by (auto simp add: numbered_path_def dest: inj_format_02d)


lemma safe_filepath_loop_free:
  "initial_filepath \<notin> existing \<or> can_overwrite \<Longrightarrow>
   safe_filepath_loop existing can_overwrite path_root extension i initial_filepath
     = Some initial_filepath"
  by (subst safe_filepath_loop.simps) (auto simp add: is_output_file_safe_def)

lemma safe_filepath_loop_taken:
  "initial_filepath \<in> existing \<Longrightarrow>
   safe_filepath_loop existing False path_root extension i initial_filepath
     = safe_filepath_loop existing False path_root extension (i + 1)
         (path_root @ ''_'' @ format_02d (i + 1) @ extension)"
  by (subst safe_filepath_loop.simps) (simp add: is_output_file_safe_def)

lemma safe_filepath_loop_finds:
  assumes "path_root @ ''_'' @ format_02d n @ extension \<notin> existing"
    and "\<forall>m. i < m \<and> m < n \<longrightarrow> path_root @ ''_'' @ format_02d m @ extension \<in> existing"
    and "i < n" and "cur \<in> existing"
  shows "safe_filepath_loop existing False path_root extension i cur
     = Some (path_root @ ''_'' @ format_02d n @ extension)"
  using assms
proof (induction "n - i" arbitrary: i cur)
  case 0
  then show ?case by simp
next
  case (Suc k)
  show ?case
  proof (cases "i + 1 = n")
    case True
    with Suc.prems show ?thesis
      by (simp add: safe_filepath_loop_taken safe_filepath_loop_free)
  next
    case False
    with Suc.prems have lt: "i + 1 < n" by simp
    with Suc.prems have next_in: "path_root @ ''_'' @ format_02d (i + 1) @ extension \<in> existing"
      by simp
    have k: "k = n - (i + 1)" using Suc.hyps(2) by simp
    have "safe_filepath_loop existing False path_root extension (i + 1)
            (path_root @ ''_'' @ format_02d (i + 1) @ extension)
          = Some (path_root @ ''_'' @ format_02d n @ extension)"
      using Suc.hyps(1) [OF k Suc.prems(1) _ lt next_in] Suc.prems(2) by simp
    then show ?thesis
      using Suc.prems(4) by (simp add: safe_filepath_loop_taken)
  qed
qed

lemma first_free_number:
  assumes "finite existing"
  shows "\<exists>n. 0 < n \<and> numbered_path splitext p n \<notin> existing
            \<and> (\<forall>m. 0 < m \<and> m < n \<longrightarrow> numbered_path splitext p m \<in> existing)"
proof -
  let ?taken = "{n. numbered_path splitext p n \<in> existing}"
  have "inj (numbered_path splitext p)"
    by (rule injI) (rule numbered_path_inj)
  then have "finite (numbered_path splitext p -` existing)"
    using assms by (rule finite_vimageI [rotated])
  then have fin: "finite ?taken" by (simp add: vimage_def)
  then obtain b where b: "\<forall>n\<in>?taken. n < b"
    using finite_nat_set_iff_bounded by auto
  then have "Suc b \<notin> ?taken" by auto
  then have ex: "\<exists>n. 0 < n \<and> numbered_path splitext p n \<notin> existing"
    by (intro exI [of _ "Suc b"]) simp
  define P where "P n = (0 < n \<and> numbered_path splitext p n \<notin> existing)" for n
  from ex have "\<exists>n. P n" by (simp add: P_def)
  then obtain n where "P n" and least: "\<forall>m<n. \<not> P m"
    using exists_least_iff [of P] by auto
  then show ?thesis
    unfolding P_def by (intro exI [of _ n]) auto
qed

lemma get_safe_filepath_candidate:
  "get_safe_filepath splitext existing p can_overwrite True
     = safe_filepath_loop existing can_overwrite (fst (splitext p)) (snd (splitext p)) 0 p"
  by (simp add: get_safe_filepath_def split: prod.splits)

lemma get_safe_filepath_unchanged:
  "p \<notin> existing \<or> can_overwrite \<Longrightarrow> get_safe_filepath splitext existing p can_overwrite True = Some p"
  by (simp add: get_safe_filepath_candidate safe_filepath_loop_free)

lemma get_safe_filepath_numbered:
  assumes "p \<in> existing" and "0 < n" and "numbered_path splitext p n \<notin> existing"
    and "\<forall>m. 0 < m \<and> m < n \<longrightarrow> numbered_path splitext p m \<in> existing"
  shows "get_safe_filepath splitext existing p False True = Some (numbered_path splitext p n)"
  using safe_filepath_loop_finds [of "fst (splitext p)" n "snd (splitext p)" existing 0 p] assms
  by (simp add: get_safe_filepath_candidate numbered_path_def)

lemma get_safe_filepath_returns:
  assumes "finite existing"
  shows "\<exists>q. get_safe_filepath splitext existing p can_overwrite True = Some q"
proof (cases "p \<notin> existing \<or> can_overwrite")
  case True
  then show ?thesis by (simp add: get_safe_filepath_unchanged)
next
  case False
  then have p: "p \<in> existing" and c: "can_overwrite = False" by auto
  from first_free_number [OF assms, of splitext p] obtain n where
    "0 < n" "numbered_path splitext p n \<notin> existing"
    "\<forall>m. 0 < m \<and> m < n \<longrightarrow> numbered_path splitext p m \<in> existing" by blast
  from get_safe_filepath_numbered [OF p this] c show ?thesis by simp
qed

text \<open>
  C7: with a finite file system and no leave to overwrite, \<^verbatim>\<open>get_safe_filepath\<close>
  returns. A path that does not exist is returned unchanged. For a path that exists the
  result is the path with a number \<open>n \<ge> 1\<close> put before the extension, it does not exist,
  and every smaller number gives a path that exists. The number is written in decimal
  with at least two digits: \<open>_01\<close>, \<open>_02\<close>, and \<open>_100\<close> after \<open>_99\<close>.
\<close>

theorem safe_filepath_first_free_number:
  assumes "finite existing"
  shows "(p \<notin> existing \<longrightarrow> get_safe_filepath splitext existing p False True = Some p)
    \<and> (p \<in> existing \<longrightarrow>
         (\<exists>n. 0 < n
            \<and> get_safe_filepath splitext existing p False True = Some (numbered_path splitext p n)
            \<and> numbered_path splitext p n \<notin> existing
            \<and> (\<forall>m. 0 < m \<and> m < n \<longrightarrow> numbered_path splitext p m \<in> existing)))
    \<and> numbered_path splitext p k = fst (splitext p) @ ''_'' @ format_02d k @ snd (splitext p)
    \<and> 2 \<le> length (format_02d k) \<and> decimal_value (format_02d k) = k
    \<and> format_02d 1 = ''01'' \<and> format_02d 2 = ''02'' \<and> format_02d 100 = ''100''"
proof -
  have a: "p \<notin> existing \<longrightarrow> get_safe_filepath splitext existing p False True = Some p"
    by (simp add: get_safe_filepath_unchanged)
  have b: "p \<in> existing \<longrightarrow>
         (\<exists>n. 0 < n
            \<and> get_safe_filepath splitext existing p False True = Some (numbered_path splitext p n)
            \<and> numbered_path splitext p n \<notin> existing
            \<and> (\<forall>m. 0 < m \<and> m < n \<longrightarrow> numbered_path splitext p m \<in> existing))"
  proof
    assume p: "p \<in> existing"
    from first_free_number [OF assms, of splitext p] obtain n where n:
      "0 < n" "numbered_path splitext p n \<notin> existing"
      "\<forall>m. 0 < m \<and> m < n \<longrightarrow> numbered_path splitext p m \<in> existing" by blast
    from get_safe_filepath_numbered [OF p n] n
    show "\<exists>n. 0 < n
            \<and> get_safe_filepath splitext existing p False True = Some (numbered_path splitext p n)
            \<and> numbered_path splitext p n \<notin> existing
            \<and> (\<forall>m. 0 < m \<and> m < n \<longrightarrow> numbered_path splitext p m \<in> existing)"
      by blast
  qed
  have c: "numbered_path splitext p k = fst (splitext p) @ ''_'' @ format_02d k @ snd (splitext p)"
    by (simp add: numbered_path_def)
  show ?thesis
    using a b c length_format_02d [of k] decimal_value_format_02d [of k] format_examples
    by blast
qed

lemma posix_splitext_example: "posix_splitext ''out/roads.json'' = (''out/roads'', ''.json'')"
  by (simp add: posix_splitext_def)

theorem safe_filepath_first_free_number_witness:
  "finite {''out/roads.json'', ''out/roads_01.json''}
   \<and> get_safe_filepath posix_splitext {''out/roads.json'', ''out/roads_01.json''} ''out/roads.json'' False True
       = Some ''out/roads_02.json''
   \<and> get_safe_filepath posix_splitext {''out/roads.json'', ''out/roads_01.json''} ''out/new.json'' False True
       = Some ''out/new.json''"
proof -
  let ?fs = "{''out/roads.json'', ''out/roads_01.json''}"
  have fin: "finite ?fs" by simp
  have np: "numbered_path posix_splitext ''out/roads.json'' n = ''out/roads_'' @ format_02d n @ ''.json''" for n
    by (simp add: numbered_path_def posix_splitext_example)
  from safe_filepath_first_free_number [OF fin, of "''out/roads.json''" posix_splitext 0]
  obtain n where n: "0 < n"
    "get_safe_filepath posix_splitext ?fs ''out/roads.json'' False True
       = Some (numbered_path posix_splitext ''out/roads.json'' n)"
    "numbered_path posix_splitext ''out/roads.json'' n \<notin> ?fs"
    "\<forall>m. 0 < m \<and> m < n \<longrightarrow> numbered_path posix_splitext ''out/roads.json'' m \<in> ?fs"
    by auto
  have n1: "n \<noteq> 1" using n(3) by (auto simp add: np format_02d_Suc_0)
  have "\<not> 2 < n"
  proof
    assume "2 < n"
    with n(4) have "numbered_path posix_splitext ''out/roads.json'' 2 \<in> ?fs" by simp
    then show False by (simp add: np format_examples)
  qed
  with n(1) n1 have "n = 2" by simp
  with n(2) have r: "get_safe_filepath posix_splitext ?fs ''out/roads.json'' False True
       = Some ''out/roads_02.json''"
    by (simp add: np format_examples)
  from safe_filepath_first_free_number [OF fin, of "''out/new.json''" posix_splitext 0]
  have "get_safe_filepath posix_splitext ?fs ''out/new.json'' False True = Some ''out/new.json''"
    by simp
  with r fin show ?thesis by simp
qed

section \<open>Properties of \<^verbatim>\<open>save_schema_files\<close>\<close>

lemma schema_text_loop_eq:
  "schema_text_loop schema (t, u) =
     (t @ concat (map (\<lambda>(key, column_type). key @ '':'' @ column_type @ '','' @ [CHR 0x0A]) schema),
      u @ map fst (filter (\<lambda>(key, column_type). column_type = ''UNKNOWN'') schema))"
  by (induction schema arbitrary: t u) auto

lemma concat_lines_join:
  "xs \<noteq> [] \<Longrightarrow> concat (map (\<lambda>x. x @ sep) xs) = join sep xs @ sep"
  by (induction sep xs rule: join.induct) simp_all

lemma schema_lines_join:
  assumes "schema \<noteq> []"
  shows "concat (map (\<lambda>(key, column_type). key @ '':'' @ column_type @ '','' @ [CHR 0x0A]) schema)
    = join ('','' @ [CHR 0x0A]) (map (\<lambda>(key, column_type). key @ '':'' @ column_type) schema)
      @ '','' @ [CHR 0x0A]"
proof -
  let ?entry = "\<lambda>(key, column_type). key @ '':'' @ column_type"
  have eq: "(\<lambda>(key, column_type). key @ '':'' @ column_type @ '','' @ [CHR 0x0A])
      = (\<lambda>x. x @ '','' @ [CHR 0x0A]) \<circ> ?entry"
    by (auto simp add: fun_eq_iff)
  have "concat (map ((\<lambda>x. x @ '','' @ [CHR 0x0A]) \<circ> ?entry) schema)
      = concat (map (\<lambda>x. x @ '','' @ [CHR 0x0A]) (map ?entry schema))"
    by (simp only: map_map)
  also have "\<dots> = join ('','' @ [CHR 0x0A]) (map ?entry schema) @ '','' @ [CHR 0x0A]"
    using assms by (intro concat_lines_join) simp
  finally show ?thesis
    by (simp only: eq)
qed

lemma text_written_join:
  assumes "schema \<noteq> []"
  shows "(case schema_text_loop schema ([], []) of
           (schema_text, unknown_columns) \<Rightarrow> take (length schema_text - 2) schema_text)
    = join ('','' @ [CHR 0x0A]) (map (\<lambda>(key, column_type). key @ '':'' @ column_type) schema)"
proof -
  let ?j = "join ('','' @ [CHR 0x0A]) (map (\<lambda>(key, column_type). key @ '':'' @ column_type) schema)"
  have "schema_text_loop schema ([], []) =
      (?j @ '','' @ [CHR 0x0A],
       map fst (filter (\<lambda>(key, column_type). column_type = ''UNKNOWN'') schema))"
    using schema_lines_join [OF assms] by (simp add: schema_text_loop_eq)
  then show ?thesis by simp
qed

lemma sublist_join: "x \<in> set xs \<Longrightarrow> sublist x (join sep xs)"
proof (induction sep xs rule: join.induct)
  case (3 sep a b ys)
  show ?case
  proof (cases "x = a")
    case True
    then show ?thesis by simp
  next
    case False
    with 3 have "sublist x (join sep (b # ys))" by simp
    then show ?thesis
      by (simp add: sublist_append)
  qed
qed simp_all

lemma save_schema_files_result:
  assumes "finite existing"
  shows "\<exists>jf tf. save_schema_files splitext existing schema path_root can_overwrite =
     Some \<lparr> json_file = jf, json_dumped = schema, text_file = tf,
            text_written = (case schema_text_loop schema ([], []) of
               (schema_text, unknown_columns) \<Rightarrow> take (length schema_text - 2) schema_text),
            printed_warning =
              (if map fst (filter (\<lambda>(key, column_type). column_type = ''UNKNOWN'') schema) \<noteq> []
               then Some (warning_text (map fst (filter (\<lambda>(key, column_type). column_type = ''UNKNOWN'') schema)))
               else None) \<rparr>"
proof -
  from get_safe_filepath_returns [OF assms] obtain jf where
    jf: "get_safe_filepath splitext existing (path_root @ ''_SCHEMA.json'') can_overwrite True = Some jf"
    by blast
  from assms have "finite (insert jf existing)" by simp
  from get_safe_filepath_returns [OF this] obtain tf where
    tf: "get_safe_filepath splitext (insert jf existing) (path_root @ ''_SCHEMA.txt'') can_overwrite True = Some tf"
    by blast
  show ?thesis
    by (simp add: save_schema_files_def jf tf schema_text_loop_eq)
qed


lemma sublist_inside: "sublist x y \<Longrightarrow> sublist x (a @ y @ b)"
proof -
  assume "sublist x y"
  then obtain ps ss where "y = ps @ x @ ss" by (auto simp add: sublist_def)
  then have "a @ y @ b = (a @ ps) @ x @ (ss @ b)" by simp
  then show ?thesis unfolding sublist_def by blast
qed

lemma sublist_after: "sublist x y \<Longrightarrow> sublist x (a @ y)"
  using sublist_inside [of x y a "[]"] by simp

lemma sublist_before: "sublist x y \<Longrightarrow> sublist x (y @ b)"
  using sublist_inside [of x y "[]" b] by simp

lemma sublist_warning_text:
  assumes "key \<in> set unknown_columns"
  shows "sublist key (warning_text unknown_columns)"
  unfolding warning_text_def
  by (rule sublist_after, rule sublist_after, rule sublist_after, rule sublist_after,
      rule sublist_after, rule sublist_after, rule sublist_before, rule sublist_join, rule assms)

text \<open>
  C6: for a schema that is not empty the plaintext file holds the entries
  \<^verbatim>\<open>name:TYPE\<close> joined by a comma and a newline, with nothing after the last entry.
  The schema \<^verbatim>\<open>{"a":"STRING","b":"INTEGER"}\<close> gives \<^verbatim>\<open>a:STRING,\<close>, a newline, and
  \<^verbatim>\<open>b:INTEGER\<close> (the witness).
\<close>

theorem plaintext_schema_joined:
  assumes "finite existing" and "schema \<noteq> []"
  shows "map_option text_written (save_schema_files splitext existing schema path_root can_overwrite)
     = Some (join ('','' @ [CHR 0x0A])
              (map (\<lambda>(key, column_type). key @ '':'' @ column_type) schema))"
  using save_schema_files_result [OF assms(1), of splitext schema path_root can_overwrite]
    text_written_join [OF assms(2)]
  by auto

theorem plaintext_schema_joined_witness:
  "map_option text_written
     (save_schema_files posix_splitext {} [(''a'', ''STRING''), (''b'', ''INTEGER'')] ''out/roads'' False)
   = Some (''a:STRING,'' @ [CHR 0x0A] @ ''b:INTEGER'')"
  using plaintext_schema_joined [of "{}" "[(''a'', ''STRING''), (''b'', ''INTEGER'')]"
      posix_splitext "''out/roads''" False]
  by simp

text \<open>
  C9: \<^verbatim>\<open>save_schema_files\<close> returns on every schema, with or without UNKNOWN
  columns. The JSON file receives the schema as it is, the plaintext file has the entry
  \<^verbatim>\<open>name:UNKNOWN\<close> of every column of type UNKNOWN, and the warning is printed exactly
  when there is such a column and names each of them. A column whose values were all
  null reaches the schema with the type UNKNOWN.
\<close>

theorem unknown_columns_warned:
  assumes "finite existing"
  shows "\<exists>r. save_schema_files splitext existing schema path_root can_overwrite = Some r
     \<and> json_dumped r = schema
     \<and> printed_warning r =
         (if list_ex (\<lambda>(key, column_type). column_type = ''UNKNOWN'') schema
          then Some (warning_text
                 (map fst (filter (\<lambda>(key, column_type). column_type = ''UNKNOWN'') schema)))
          else None)
     \<and> (\<forall>key. (key, ''UNKNOWN'') \<in> set schema \<longrightarrow>
           sublist (key @ '':UNKNOWN'') (text_written r)
           \<and> (\<exists>w. printed_warning r = Some w \<and> sublist key w))
     \<and> infer_column (replicate (Suc n) JNull) = Some ''UNKNOWN''"
proof -
  let ?unknown = "map fst (filter (\<lambda>(key, column_type). column_type = ''UNKNOWN'') schema)"
  let ?text = "case schema_text_loop schema ([], []) of
     (schema_text, unknown_columns) \<Rightarrow> take (length schema_text - 2) schema_text"
  from save_schema_files_result [OF assms, of splitext schema path_root can_overwrite]
  obtain jf tf where r:
    "save_schema_files splitext existing schema path_root can_overwrite =
       Some \<lparr> json_file = jf, json_dumped = schema, text_file = tf, text_written = ?text,
              printed_warning = (if ?unknown \<noteq> [] then Some (warning_text ?unknown) else None) \<rparr>"
    by blast
  have ex: "(?unknown \<noteq> []) = list_ex (\<lambda>(key, column_type). column_type = ''UNKNOWN'') schema"
    by (auto simp add: list_ex_iff filter_empty_conv)
  have each: "sublist (key @ '':UNKNOWN'') ?text \<and> ?unknown \<noteq> [] \<and> sublist key (warning_text ?unknown)"
    if "(key, ''UNKNOWN'') \<in> set schema" for key
  proof -
    from that have ne: "schema \<noteq> []" by auto
    from that have "key @ '':UNKNOWN'' \<in> set (map (\<lambda>(key, column_type). key @ '':'' @ column_type) schema)"
      by force
    then have a: "sublist (key @ '':UNKNOWN'') ?text"
      unfolding text_written_join [OF ne] by (rule sublist_join)
    from that have k: "key \<in> set ?unknown" by force
    then have "?unknown \<noteq> []" by (auto simp add: filter_empty_conv)
    with a k show ?thesis by (simp add: sublist_warning_text)
  qed
  let ?r = "\<lparr> json_file = jf, json_dumped = schema, text_file = tf, text_written = ?text,
      printed_warning = (if ?unknown \<noteq> [] then Some (warning_text ?unknown) else None) \<rparr>"
  have 1: "json_dumped ?r = schema" by simp
  have 2: "printed_warning ?r =
         (if list_ex (\<lambda>(key, column_type). column_type = ''UNKNOWN'') schema
          then Some (warning_text ?unknown) else None)"
    by (simp only: ex schema_files.select_convs)
  have 3: "sublist (key @ '':UNKNOWN'') (text_written ?r)
      \<and> (\<exists>w. printed_warning ?r = Some w \<and> sublist key w)"
    if "(key, ''UNKNOWN'') \<in> set schema" for key
  proof -
    from each [OF that] have a: "sublist (key @ '':UNKNOWN'') ?text" and ne: "?unknown \<noteq> []"
      and w: "sublist key (warning_text ?unknown)" by blast+
    from ne have "printed_warning ?r = Some (warning_text ?unknown)" by simp
    with a w show ?thesis by simp
  qed
  have 4: "infer_column (replicate (Suc n) JNull) = Some ''UNKNOWN''"
    by (simp only: infer_column_nulls) simp
  from r 1 2 3 4 show ?thesis by blast
qed

theorem unknown_columns_warned_witness:
  "map_option printed_warning
     (save_schema_files posix_splitext {} [(''name'', ''STRING''), (''note'', ''UNKNOWN'')] ''out/roads'' False)
     = Some (Some (warning_text [''note'']))
   \<and> map_option json_dumped
     (save_schema_files posix_splitext {} [(''name'', ''STRING''), (''note'', ''UNKNOWN'')] ''out/roads'' False)
     = Some [(''name'', ''STRING''), (''note'', ''UNKNOWN'')]
   \<and> map_option printed_warning
     (save_schema_files posix_splitext {} [(''name'', ''STRING'')] ''out/roads'' False)
     = Some None"
proof -
  have fin: "finite ({} :: string set)" by simp
  from unknown_columns_warned [OF fin, of posix_splitext
      "[(''name'', ''STRING''), (''note'', ''UNKNOWN'')]" "''out/roads''" False]
  have a: "map_option printed_warning
     (save_schema_files posix_splitext {} [(''name'', ''STRING''), (''note'', ''UNKNOWN'')] ''out/roads'' False)
     = Some (Some (warning_text [''note'']))
   \<and> map_option json_dumped
     (save_schema_files posix_splitext {} [(''name'', ''STRING''), (''note'', ''UNKNOWN'')] ''out/roads'' False)
     = Some [(''name'', ''STRING''), (''note'', ''UNKNOWN'')]"
    by auto
  from unknown_columns_warned [OF fin, of posix_splitext "[(''name'', ''STRING'')]" "''out/roads''" False]
  have b: "map_option printed_warning
     (save_schema_files posix_splitext {} [(''name'', ''STRING'')] ''out/roads'' False) = Some None"
    by auto
  from a b show ?thesis by simp
qed

section \<open>Properties of the argument validation\<close>

lemma error_message_nonempty: "error_message e \<noteq> []"
  by (cases e) simp_all

lemma reserved_option_used_Some:
  "reserved_option_used s = Some d \<Longrightarrow> d \<in> set reserved_convert_options \<and> sublist d s"
  by (auto simp add: reserved_option_used_def find_Some_iff split: if_splits)

lemma reserved_option_used_None:
  "reserved_option_used s = None \<longleftrightarrow> \<not> list_ex (\<lambda>option. sublist option s) reserved_convert_options"
proof (cases "s = []")
  case True
  then show ?thesis
    by (simp add: reserved_option_used_def reserved_convert_options_def)
next
  case False
  then show ?thesis
    by (auto simp add: reserved_option_used_def find_None_iff list_ex_iff)
qed

lemma reserved_substrings:
  "list_ex (\<lambda>option. sublist option s) reserved_convert_options
     \<longleftrightarrow> sublist ''-f'' s \<or> sublist ''-of'' s \<or> sublist ''-t_srs'' s"
  by (simp add: reserved_convert_options_def)

lemma get_arg_errors_source_error:
  "get_source_errors fs (arg_source a) (arg_extension a \<noteq> None) = Some e \<Longrightarrow>
   get_arg_errors fs splitext answers a = Returns (Some e)"
  by (simp add: get_arg_errors_def)

lemma get_arg_errors_reserved:
  "get_source_errors fs (arg_source a) (arg_extension a \<noteq> None) = None \<Longrightarrow>
   reserved_option_used (arg_convert_options a) = Some d \<Longrightarrow>
   get_arg_errors fs splitext answers a = Returns (Some (ReservedOption d))"
  by (simp add: get_arg_errors_def)

lemma get_output_file_args_errors_not_reserved:
  "get_output_file_args_errors fs splitext answers p c1 c2 \<noteq> Returns (Some (ReservedOption d))"
  by (simp add: get_output_file_args_errors_def split: option.splits)

lemma get_source_errors_not_reserved:
  "get_source_errors fs p b \<noteq> Some (ReservedOption d)"
  by (simp add: get_source_errors_def)

lemma get_arg_errors_reserved_iff:
  "get_arg_errors fs splitext answers a = Returns (Some (ReservedOption d))
     \<longleftrightarrow> get_source_errors fs (arg_source a) (arg_extension a \<noteq> None) = None
         \<and> reserved_option_used (arg_convert_options a) = Some d"
proof (cases "get_source_errors fs (arg_source a) (arg_extension a \<noteq> None)")
  case (Some e)
  then show ?thesis
    using get_source_errors_not_reserved [of fs "arg_source a" "arg_extension a \<noteq> None" d]
    by (auto simp add: get_arg_errors_source_error)
next
  case None
  show ?thesis
  proof (cases "reserved_option_used (arg_convert_options a)")
    case (Some d')
    with None show ?thesis by (auto simp add: get_arg_errors_reserved)
  next
    case none: None
    with None show ?thesis
      using get_output_file_args_errors_not_reserved
      by (simp add: get_arg_errors_def split: option.splits)
  qed
qed


lemma fieldmap_reserved:
  "reserved_option_used (before @ ''-fieldmap'' @ after) = Some ''-f''"
proof -
  have "sublist ''-f'' (before @ ''-f'' @ (''ieldmap'' @ after))"
    by (rule sublist_appendI)
  then have "sublist ''-f'' (before @ ''-fieldmap'' @ after)" by simp
  then show ?thesis
    by (simp add: reserved_option_used_def reserved_convert_options_def)
qed

text \<open>
  C8: when the string of \<^verbatim>\<open>--convert_options\<close> holds one of the reserved options
  \<^verbatim>\<open>-f\<close>, \<^verbatim>\<open>-of\<close>, \<^verbatim>\<open>-t_srs\<close>, \<^verbatim>\<open>get_arg_errors\<close> returns an error with a message
  that is not empty, and \<^verbatim>\<open>main\<close> leaves through \<^verbatim>\<open>sys.exit\<close> with that message
  and status 1 before any conversion; with a valid source the error names a reserved
  option that the string holds. When the string holds none of them, the error
  returned, if any, is not the one of a reserved option.
\<close>

theorem reserved_option_rejected:
  "(list_ex (\<lambda>option. sublist option (arg_convert_options a)) reserved_convert_options \<longrightarrow>
      (\<exists>e. get_arg_errors fs splitext answers a = Returns (Some e)
         \<and> error_message e \<noteq> []
         \<and> main_validation fs splitext answers a = SysExit (error_message e) 1
         \<and> (get_source_errors fs (arg_source a) (arg_extension a \<noteq> None) = None \<longrightarrow>
               (\<exists>option. e = ReservedOption option \<and> option \<in> set reserved_convert_options
                  \<and> sublist option (arg_convert_options a)))))
   \<and> (\<not> list_ex (\<lambda>option. sublist option (arg_convert_options a)) reserved_convert_options \<longrightarrow>
        (\<forall>option. get_arg_errors fs splitext answers a \<noteq> Returns (Some (ReservedOption option))))"
proof (intro conjI impI)
  assume used: "list_ex (\<lambda>option. sublist option (arg_convert_options a)) reserved_convert_options"
  then obtain d where d: "reserved_option_used (arg_convert_options a) = Some d"
    using reserved_option_used_None [of "arg_convert_options a"] by auto
  show "\<exists>e. get_arg_errors fs splitext answers a = Returns (Some e)
         \<and> error_message e \<noteq> []
         \<and> main_validation fs splitext answers a = SysExit (error_message e) 1
         \<and> (get_source_errors fs (arg_source a) (arg_extension a \<noteq> None) = None \<longrightarrow>
               (\<exists>option. e = ReservedOption option \<and> option \<in> set reserved_convert_options
                  \<and> sublist option (arg_convert_options a)))"
  proof (cases "get_source_errors fs (arg_source a) (arg_extension a \<noteq> None)")
    case (Some e)
    then have "get_arg_errors fs splitext answers a = Returns (Some e)"
      by (rule get_arg_errors_source_error)
    moreover from this have "main_validation fs splitext answers a = SysExit (error_message e) 1"
      by (simp add: main_validation_def error_message_nonempty)
    ultimately show ?thesis
      using Some error_message_nonempty [of e] by auto
  next
    case None
    then have r: "get_arg_errors fs splitext answers a = Returns (Some (ReservedOption d))"
      using d by (rule get_arg_errors_reserved)
    then have "main_validation fs splitext answers a = SysExit (error_message (ReservedOption d)) 1"
      by (simp add: main_validation_def)
    with r reserved_option_used_Some [OF d] error_message_nonempty [of "ReservedOption d"]
    show ?thesis by blast
  qed
next
  assume "\<not> list_ex (\<lambda>option. sublist option (arg_convert_options a)) reserved_convert_options"
  then have "reserved_option_used (arg_convert_options a) = None"
    by (simp add: reserved_option_used_None)
  then show "\<forall>option. get_arg_errors fs splitext answers a \<noteq> Returns (Some (ReservedOption option))"
    by (simp add: get_arg_errors_reserved_iff)
qed

theorem reserved_option_rejected_witness:
  "get_arg_errors
     \<lparr> fs_files = {''in/roads.shp''}, fs_directories = {''in''}, fs_geofiles = {''in/roads.shp''} \<rparr>
     posix_splitext []
     \<lparr> arg_source = ''in/roads.shp'', arg_extension = None,
       arg_convert_options = ''-t_srs EPSG:3857'', arg_output_directory = None,
       arg_output_filepath = None, arg_force_overwrite = False, arg_create_parents = False \<rparr>
     = Returns (Some (ReservedOption ''-t_srs''))
   \<and> main_validation
     \<lparr> fs_files = {''in/roads.shp''}, fs_directories = {''in''}, fs_geofiles = {''in/roads.shp''} \<rparr>
     posix_splitext []
     \<lparr> arg_source = ''in/roads.shp'', arg_extension = None,
       arg_convert_options = ''-t_srs EPSG:3857'', arg_output_directory = None,
       arg_output_filepath = None, arg_force_overwrite = False, arg_create_parents = False \<rparr>
     = SysExit (error_message (ReservedOption ''-t_srs'')) 1
   \<and> get_arg_errors
     \<lparr> fs_files = {''in/roads.shp''}, fs_directories = {''in''}, fs_geofiles = {''in/roads.shp''} \<rparr>
     posix_splitext []
     \<lparr> arg_source = ''in/roads.shp'', arg_extension = None,
       arg_convert_options = ''-where pop>5'', arg_output_directory = None,
       arg_output_filepath = None, arg_force_overwrite = False, arg_create_parents = False \<rparr>
     = Returns None"
proof -
  let ?fs = "\<lparr> fs_files = {''in/roads.shp''}, fs_directories = {''in''}, fs_geofiles = {''in/roads.shp''} \<rparr>"
  let ?a = "\<lparr> arg_source = ''in/roads.shp'', arg_extension = None,
       arg_convert_options = ''-t_srs EPSG:3857'', arg_output_directory = None,
       arg_output_filepath = None, arg_force_overwrite = False, arg_create_parents = False \<rparr>"
  let ?b = "\<lparr> arg_source = ''in/roads.shp'', arg_extension = None,
       arg_convert_options = ''-where pop>5'', arg_output_directory = None,
       arg_output_filepath = None, arg_force_overwrite = False, arg_create_parents = False \<rparr>"
  have src: "get_source_errors ?fs ''in/roads.shp'' False = None"
    by (simp add: get_source_errors_def fs_paths_def is_supported_geofile_def)
  have used: "reserved_option_used ''-t_srs EPSG:3857'' = Some ''-t_srs''"
    by (simp add: reserved_option_used_def reserved_convert_options_def sublist_code)
  have unused: "reserved_option_used ''-where pop>5'' = None"
    by (simp add: reserved_option_used_def reserved_convert_options_def sublist_code)
  have ex: "list_ex (\<lambda>option. sublist option (arg_convert_options ?a)) reserved_convert_options"
    using used reserved_option_used_None [of "''-t_srs EPSG:3857''"] by simp
  from reserved_option_rejected [of ?a ?fs posix_splitext "[]"] ex src
  obtain e where e: "get_arg_errors ?fs posix_splitext [] ?a = Returns (Some e)"
    "main_validation ?fs posix_splitext [] ?a = SysExit (error_message e) 1"
    "\<exists>option. e = ReservedOption option" by auto
  have "get_arg_errors ?fs posix_splitext [] ?a = Returns (Some (ReservedOption ''-t_srs''))"
    using src used by (simp add: get_arg_errors_def)
  with e have 1: "get_arg_errors ?fs posix_splitext [] ?a = Returns (Some (ReservedOption ''-t_srs''))"
    and 2: "main_validation ?fs posix_splitext [] ?a = SysExit (error_message (ReservedOption ''-t_srs'')) 1"
    by simp_all
  have 3: "get_arg_errors ?fs posix_splitext [] ?b = Returns None"
    using src unused by (simp add: get_arg_errors_def get_output_file_args_errors_def)
  from 1 2 3 show ?thesis by (intro conjI)
qed

text \<open>
  C10: the reserved options are looked for as substrings. The error of a reserved
  option is returned exactly when the source is valid and \<^verbatim>\<open>-f\<close>, \<^verbatim>\<open>-of\<close> or
  \<^verbatim>\<open>-t_srs\<close> occurs somewhere in the string; so every string in which
  \<^verbatim>\<open>-fieldmap\<close> occurs is refused for \<^verbatim>\<open>-f\<close>.
\<close>

theorem reserved_detection_is_substring:
  "(\<exists>option. get_arg_errors fs splitext answers a = Returns (Some (ReservedOption option)))
     = (get_source_errors fs (arg_source a) (arg_extension a \<noteq> None) = None
        \<and> (sublist ''-f'' (arg_convert_options a) \<or> sublist ''-of'' (arg_convert_options a)
             \<or> sublist ''-t_srs'' (arg_convert_options a)))
   \<and> reserved_option_used (before @ ''-fieldmap'' @ after) = Some ''-f''"
proof -
  have "(\<exists>d. reserved_option_used (arg_convert_options a) = Some d)
      = list_ex (\<lambda>option. sublist option (arg_convert_options a)) reserved_convert_options"
    using reserved_option_used_None [of "arg_convert_options a"] by auto
  then have "(\<exists>option. get_arg_errors fs splitext answers a = Returns (Some (ReservedOption option)))
     = (get_source_errors fs (arg_source a) (arg_extension a \<noteq> None) = None
        \<and> (sublist ''-f'' (arg_convert_options a) \<or> sublist ''-of'' (arg_convert_options a)
             \<or> sublist ''-t_srs'' (arg_convert_options a)))"
    by (simp add: get_arg_errors_reserved_iff reserved_substrings)
  then show ?thesis
    using fieldmap_reserved [of before after] by (rule conjI)
qed

theorem reserved_detection_is_substring_witness:
  "get_arg_errors
     \<lparr> fs_files = {''in/roads.shp''}, fs_directories = {''in''}, fs_geofiles = {''in/roads.shp''} \<rparr>
     posix_splitext []
     \<lparr> arg_source = ''in/roads.shp'', arg_extension = None,
       arg_convert_options = ''-fieldmap identity'', arg_output_directory = None,
       arg_output_filepath = None, arg_force_overwrite = False, arg_create_parents = False \<rparr>
     = Returns (Some (ReservedOption ''-f''))"
proof -
  let ?fs = "\<lparr> fs_files = {''in/roads.shp''}, fs_directories = {''in''}, fs_geofiles = {''in/roads.shp''} \<rparr>"
  let ?a = "\<lparr> arg_source = ''in/roads.shp'', arg_extension = None,
       arg_convert_options = ''-fieldmap identity'', arg_output_directory = None,
       arg_output_filepath = None, arg_force_overwrite = False, arg_create_parents = False \<rparr>"
  have src: "get_source_errors ?fs ''in/roads.shp'' False = None"
    by (simp add: get_source_errors_def fs_paths_def is_supported_geofile_def)
  have sub: "sublist ''-f'' ''-fieldmap identity''"
    by (simp add: sublist_code)
  from reserved_detection_is_substring [of ?fs posix_splitext "[]" ?a] src sub
  obtain option where o: "get_arg_errors ?fs posix_splitext [] ?a = Returns (Some (ReservedOption option))"
    by auto
  then have "reserved_option_used ''-fieldmap identity'' = Some option"
    by (simp add: get_arg_errors_reserved_iff)
  moreover have "reserved_option_used ''-fieldmap identity'' = Some ''-f''"
    using fieldmap_reserved [of "[]" "'' identity''"] by simp
  ultimately show ?thesis using o by simp
qed

section \<open>Properties of \<^verbatim>\<open>geojson_to_ndjson\<close>\<close>

lemma properties_loop_row:
  "map_of (fst (properties_loop ps (row, schema))) = map_of row ++ map_of (rev ps)"
proof (induction ps arbitrary: row schema)
  case Nil
  show ?case by simp
next
  case (Cons p ps)
  obtain k v where p: "p = (k, v)" by (cases p)
  have "map_of (fst (properties_loop (p # ps) (row, schema)))
      = map_of (AList.update k v row) ++ map_of (rev ps)"
    unfolding p by (simp add: Cons.IH)
  also have "\<dots> = map_of row ++ map_of (rev (p # ps))"
    unfolding p by (simp add: AList.update_conv' map_add_upd_left fun_eq_iff map_add_def split: option.splits)
  finally show ?case .
qed

lemma properties_loop_row_indep:
  "fst (properties_loop ps (row, schema)) = fst (properties_loop ps (row, schema'))"
  by (induction ps arbitrary: row schema schema') auto

lemma properties_loop_schema:
  "map_of (snd (properties_loop ps (row, schema))) k
     = foldl column_step (map_of schema k) (map snd (filter (\<lambda>(k', v). k' = k) ps))"
proof (induction ps arbitrary: row schema)
  case Nil
  show ?case by simp
next
  case (Cons p ps)
  obtain k' v where p: "p = (k', v)" by (cases p)
  show ?case
    unfolding p by (simp add: Cons.IH AList.update_conv' column_step_def)
qed

lemma foldl_column_step_Some:
  "vs \<noteq> [] \<Longrightarrow> \<exists>t. foldl column_step t0 vs = Some t"
  by (induction vs arbitrary: t0 rule: rev_induct) (simp_all add: column_step_def)


lemma configured_names_eq:
  "configured_names columns =
     (case map_of columns ''geometry'' of None \<Rightarrow> [] | Some n \<Rightarrow> [n])
     @ (case map_of columns ''geojson'' of None \<Rightarrow> [] | Some n \<Rightarrow> [n])
     @ (case map_of columns ''geojson_geometry'' of None \<Rightarrow> [] | Some n \<Rightarrow> [n])"
  by (simp add: configured_names_def default_column_names_def List.map_filter_def
      split: option.splits)

lemma configured_names_iff:
  "n \<in> set (configured_names columns) \<longleftrightarrow>
     map_of columns ''geometry'' = Some n \<or> map_of columns ''geojson'' = Some n
     \<or> map_of columns ''geojson_geometry'' = Some n"
  by (auto simp add: configured_names_eq split: option.splits)

lemma configured_names_distinct:
  assumes "distinct (configured_names columns)"
  shows "map_of columns ''geometry'' = Some n \<Longrightarrow> map_of columns ''geojson'' \<noteq> Some n"
    and "map_of columns ''geometry'' = Some n \<Longrightarrow> map_of columns ''geojson_geometry'' \<noteq> Some n"
    and "map_of columns ''geojson'' = Some n \<Longrightarrow> map_of columns ''geojson_geometry'' \<noteq> Some n"
  using assms
  by (auto simp add: configured_names_eq split: option.splits)

lemma geometry_columns_geojson_geometry:
  assumes "geometry_columns dumps columns line_item row = Inr row'"
    and "map_of columns ''geojson_geometry'' = Some n"
  shows "\<exists>g. map_of line_item ''geometry'' = Some g \<and> map_of row' n = Some (JStr (dumps g))"
  using assms
  by (auto simp add: geometry_columns_def row_geometry_def row_geojson_def
      row_geojson_geometry_def AList.update_conv' split: option.splits sum.splits)

lemma geometry_columns_geojson:
  assumes "geometry_columns dumps columns line_item row = Inr row'"
    and "map_of columns ''geojson'' = Some n"
    and "map_of columns ''geojson_geometry'' \<noteq> Some n"
  shows "map_of row' n = Some (JStr (dumps (JDict line_item)))"
  using assms
  by (auto simp add: geometry_columns_def row_geometry_def row_geojson_def
      row_geojson_geometry_def AList.update_conv' split: option.splits sum.splits)

lemma geometry_columns_geometry:
  assumes "geometry_columns dumps columns line_item row = Inr row'"
    and "map_of columns ''geometry'' = Some n"
    and "map_of columns ''geojson'' \<noteq> Some n"
    and "map_of columns ''geojson_geometry'' \<noteq> Some n"
  shows "\<exists>g. map_of line_item ''geometry'' = Some g \<and> map_of row' n = Some (JStr (dumps g))"
  using assms
  by (auto simp add: geometry_columns_def row_geometry_def row_geojson_def
      row_geojson_geometry_def AList.update_conv' split: option.splits sum.splits)

lemma geometry_columns_other:
  assumes "geometry_columns dumps columns line_item row = Inr row'"
    and "n \<notin> set (configured_names columns)"
  shows "map_of row' n = map_of row n"
  using assms
  by (auto simp add: geometry_columns_def row_geometry_def row_geojson_def
      row_geojson_geometry_def AList.update_conv' configured_names_iff
      split: option.splits sum.splits)

lemma convert_lines_result:
  assumes "convert_lines dumps columns lines (rows, schema) = Inr (rows', schema')"
  shows "\<exists>new. rows' = rows @ new
     \<and> list_all2 (\<lambda>line_item row. \<exists>ps. properties_items line_item = Inr ps
          \<and> geometry_columns dumps columns line_item (fst (properties_loop ps ([], []))) = Inr row)
          lines new
     \<and> (\<forall>k. map_of schema' k = foldl column_step (map_of schema k) (column_values k lines))"
  using assms
proof (induction lines arbitrary: rows schema)
  case Nil
  then show ?case by simp
next
  case (Cons line_item lines)
  from Cons.prems obtain ps where ps: "properties_items line_item = Inr ps"
    by (cases "properties_items line_item") (simp_all del: properties_items.simps)
  obtain row s1 where loop: "properties_loop ps ([], schema) = (row, s1)"
    by (cases "properties_loop ps ([], schema)")
  from Cons.prems ps loop obtain row1 where
    geo: "geometry_columns dumps columns line_item row = Inr row1"
    by (cases "geometry_columns dumps columns line_item row") (simp_all del: properties_items.simps)
  from Cons.prems ps loop geo have
    rest: "convert_lines dumps columns lines (rows @ [row1], s1) = Inr (rows', schema')"
    by (simp del: properties_items.simps)
  from Cons.IH [OF rest] obtain new where new: "rows' = (rows @ [row1]) @ new"
    "list_all2 (\<lambda>line_item row. \<exists>ps. properties_items line_item = Inr ps
          \<and> geometry_columns dumps columns line_item (fst (properties_loop ps ([], []))) = Inr row)
          lines new"
    "\<forall>k. map_of schema' k = foldl column_step (map_of s1 k) (column_values k lines)"
    by blast
  have row: "row = fst (properties_loop ps ([], []))"
    using loop properties_loop_row_indep [of ps "[]" schema "[]"] by simp
  have s1: "map_of s1 k = foldl column_step (map_of schema k) (map snd (filter (\<lambda>(k', v). k' = k) ps))" for k
    using properties_loop_schema [of ps "[]" schema k] loop by simp
  have sch: "map_of schema' k = foldl column_step (map_of schema k) (column_values k (line_item # lines))" for k
    using new(3) s1 [of k] ps by (simp del: properties_items.simps)
  have "list_all2 (\<lambda>line_item row. \<exists>ps. properties_items line_item = Inr ps
          \<and> geometry_columns dumps columns line_item (fst (properties_loop ps ([], []))) = Inr row)
          (line_item # lines) (row1 # new)"
    using new(2) ps geo row by (simp del: properties_items.simps)
  moreover have "rows' = rows @ (row1 # new)" using new(1) by simp
  ultimately show ?case using sch by blast
qed


lemma schema_geometry_geojson_geometry:
  "map_of columns ''geojson_geometry'' = Some n \<Longrightarrow>
   map_of (schema_geometry columns s) n = Some ''STRING''"
  by (simp add: schema_geometry_def schema_set_def AList.update_conv')

lemma schema_geometry_geojson:
  "map_of columns ''geojson'' = Some n \<Longrightarrow>
   map_of (schema_geometry columns s) n = Some ''STRING''"
  by (simp add: schema_geometry_def schema_set_def AList.update_conv' split: option.splits)

lemma schema_geometry_geometry:
  "map_of columns ''geometry'' = Some n \<Longrightarrow> map_of columns ''geojson'' \<noteq> Some n \<Longrightarrow>
   map_of columns ''geojson_geometry'' \<noteq> Some n \<Longrightarrow>
   map_of (schema_geometry columns s) n = Some ''GEOGRAPHY''"
  by (simp add: schema_geometry_def schema_set_def AList.update_conv' split: option.splits)

lemma schema_geometry_other:
  "n \<notin> set (configured_names columns) \<Longrightarrow> map_of (schema_geometry columns s) n = map_of s n"
  by (auto simp add: schema_geometry_def schema_set_def AList.update_conv' configured_names_iff
      split: option.splits)

lemma geojson_to_ndjson_result:
  assumes "geojson_to_ndjson dumps columns lines = Inr (rows, schema)"
  shows "\<exists>s. schema = schema_geometry columns s
     \<and> list_all2 (\<lambda>line_item row. \<exists>ps. properties_items line_item = Inr ps
          \<and> geometry_columns dumps columns line_item (fst (properties_loop ps ([], []))) = Inr row)
          lines rows
     \<and> (\<forall>k. map_of s k = infer_column (column_values k lines))"
proof -
  from assms obtain s where conv: "convert_lines dumps columns lines ([], []) = Inr (rows, s)"
    and schema: "schema = schema_geometry columns s"
    by (auto simp add: geojson_to_ndjson_def split: sum.splits)
  from convert_lines_result [OF conv] schema show ?thesis
    by (auto simp add: infer_column_def)
qed

text \<open>
  The conversion returns when every line has properties that can be iterated and, where
  the geometry is asked for, a member \<^verbatim>\<open>geometry\<close>.
\<close>

lemma geometry_columns_succeeds:
  assumes "map_of columns ''geometry'' = None \<and> map_of columns ''geojson_geometry'' = None
           \<or> map_of line_item ''geometry'' \<noteq> None"
  shows "\<exists>row'. geometry_columns dumps columns line_item row = Inr row'"
  using assms
  by (auto simp add: geometry_columns_def row_geometry_def row_geojson_def
      row_geojson_geometry_def split: option.splits)

lemma convert_lines_succeeds:
  assumes "list_all (\<lambda>line_item. (\<exists>ps. properties_items line_item = Inr ps)
       \<and> (map_of columns ''geometry'' = None \<and> map_of columns ''geojson_geometry'' = None
           \<or> map_of line_item ''geometry'' \<noteq> None)) lines"
  shows "\<exists>r. convert_lines dumps columns lines (rows, schema) = Inr r"
  using assms
proof (induction lines arbitrary: rows schema)
  case Nil
  show ?case by simp
next
  case (Cons line_item lines)
  then obtain ps where ps: "properties_items line_item = Inr ps" by auto
  obtain row s1 where loop: "properties_loop ps ([], schema) = (row, s1)"
    by (cases "properties_loop ps ([], schema)")
  from Cons.prems geometry_columns_succeeds [of columns line_item dumps row]
  obtain row' where geo: "geometry_columns dumps columns line_item row = Inr row'"
    by auto
  from Cons.prems have "list_all (\<lambda>line_item. (\<exists>ps. properties_items line_item = Inr ps)
       \<and> (map_of columns ''geometry'' = None \<and> map_of columns ''geojson_geometry'' = None
           \<or> map_of line_item ''geometry'' \<noteq> None)) lines" by simp
  from Cons.IH [OF this, of "rows @ [row']" s1] ps loop geo show ?case
    by (simp del: properties_items.simps)
qed

lemma geojson_to_ndjson_succeeds:
  assumes "list_all (\<lambda>line_item. (\<exists>ps. properties_items line_item = Inr ps)
       \<and> (map_of columns ''geometry'' = None \<and> map_of columns ''geojson_geometry'' = None
           \<or> map_of line_item ''geometry'' \<noteq> None)) lines"
  shows "\<exists>rows schema. geojson_to_ndjson dumps columns lines = Inr (rows, schema)"
  using convert_lines_succeeds [OF assms, of dumps "[]" "[]"]
  by (auto simp add: geojson_to_ndjson_def)

text \<open>
  C4 (as amended): when the conversion returns and the names configured for
  \<^verbatim>\<open>geometry\<close>, \<^verbatim>\<open>geojson\<close> and \<^verbatim>\<open>geojson_geometry\<close> are pairwise distinct, there
  is one row for each line; in each row a configured column holds, under its configured
  name, the serialised geometry (\<^verbatim>\<open>geometry\<close>, \<^verbatim>\<open>geojson_geometry\<close>) or the
  serialised feature (\<^verbatim>\<open>geojson\<close>), and every other field of the row is a property
  of the line; in the schema the configured names have the types GEOGRAPHY, STRING and
  STRING whatever the data, and every other name has the type inferred from the
  property values of that name, so a key left out of the configuration adds no field
  and no entry.
\<close>

theorem geometry_columns_as_configured:
  assumes "geojson_to_ndjson dumps columns lines = Inr (rows, schema)"
    and "distinct (configured_names columns)"
  shows "length rows = length lines
    \<and> (\<forall>i name. i < length lines \<longrightarrow>
          (map_of columns ''geometry'' = Some name \<longrightarrow>
             (\<exists>g. map_of (lines ! i) ''geometry'' = Some g
                \<and> map_of (rows ! i) name = Some (JStr (dumps g))))
        \<and> (map_of columns ''geojson'' = Some name \<longrightarrow>
             map_of (rows ! i) name = Some (JStr (dumps (JDict (lines ! i)))))
        \<and> (map_of columns ''geojson_geometry'' = Some name \<longrightarrow>
             (\<exists>g. map_of (lines ! i) ''geometry'' = Some g
                \<and> map_of (rows ! i) name = Some (JStr (dumps g))))
        \<and> (name \<notin> set (configured_names columns) \<longrightarrow>
             (\<exists>ps. properties_items (lines ! i) = Inr ps
                \<and> map_of (rows ! i) name = map_of (rev ps) name)))
    \<and> (\<forall>name.
          (map_of columns ''geometry'' = Some name \<longrightarrow> map_of schema name = Some ''GEOGRAPHY'')
        \<and> (map_of columns ''geojson'' = Some name \<longrightarrow> map_of schema name = Some ''STRING'')
        \<and> (map_of columns ''geojson_geometry'' = Some name \<longrightarrow> map_of schema name = Some ''STRING'')
        \<and> (name \<notin> set (configured_names columns) \<longrightarrow>
             map_of schema name = infer_column (column_values name lines)))"
proof -
  from geojson_to_ndjson_result [OF assms(1)] obtain s where
    schema: "schema = schema_geometry columns s"
    and rows: "list_all2 (\<lambda>line_item row. \<exists>ps. properties_items line_item = Inr ps
          \<and> geometry_columns dumps columns line_item (fst (properties_loop ps ([], []))) = Inr row)
          lines rows"
    and s: "\<forall>k. map_of s k = infer_column (column_values k lines)"
    by blast
  note d = configured_names_distinct [OF assms(2)]
  have len: "length rows = length lines"
    using rows by (simp add: list_all2_lengthD)
  have row: "(map_of columns ''geometry'' = Some name \<longrightarrow>
             (\<exists>g. map_of (lines ! i) ''geometry'' = Some g
                \<and> map_of (rows ! i) name = Some (JStr (dumps g))))
        \<and> (map_of columns ''geojson'' = Some name \<longrightarrow>
             map_of (rows ! i) name = Some (JStr (dumps (JDict (lines ! i)))))
        \<and> (map_of columns ''geojson_geometry'' = Some name \<longrightarrow>
             (\<exists>g. map_of (lines ! i) ''geometry'' = Some g
                \<and> map_of (rows ! i) name = Some (JStr (dumps g))))
        \<and> (name \<notin> set (configured_names columns) \<longrightarrow>
             (\<exists>ps. properties_items (lines ! i) = Inr ps
                \<and> map_of (rows ! i) name = map_of (rev ps) name))"
    if i: "i < length lines" for i name
  proof -
    from list_all2_nthD [OF rows i] obtain ps where
      ps: "properties_items (lines ! i) = Inr ps"
      and geo: "geometry_columns dumps columns (lines ! i) (fst (properties_loop ps ([], []))) = Inr (rows ! i)"
      by blast
    have 1: "map_of columns ''geometry'' = Some name \<longrightarrow>
             (\<exists>g. map_of (lines ! i) ''geometry'' = Some g
                \<and> map_of (rows ! i) name = Some (JStr (dumps g)))"
      using geometry_columns_geometry [OF geo] d(1,2) by blast
    have 2: "map_of columns ''geojson'' = Some name \<longrightarrow>
             map_of (rows ! i) name = Some (JStr (dumps (JDict (lines ! i))))"
      using geometry_columns_geojson [OF geo] d(3) by blast
    have 3: "map_of columns ''geojson_geometry'' = Some name \<longrightarrow>
             (\<exists>g. map_of (lines ! i) ''geometry'' = Some g
                \<and> map_of (rows ! i) name = Some (JStr (dumps g)))"
      using geometry_columns_geojson_geometry [OF geo] by blast
    have 4: "name \<notin> set (configured_names columns) \<longrightarrow>
             (\<exists>ps. properties_items (lines ! i) = Inr ps
                \<and> map_of (rows ! i) name = map_of (rev ps) name)"
      using geometry_columns_other [OF geo] ps properties_loop_row [of ps "[]" "[]"]
      by (auto simp del: properties_items.simps)
    from 1 2 3 4 show ?thesis by blast
  qed
  have sch: "(map_of columns ''geometry'' = Some name \<longrightarrow> map_of schema name = Some ''GEOGRAPHY'')
        \<and> (map_of columns ''geojson'' = Some name \<longrightarrow> map_of schema name = Some ''STRING'')
        \<and> (map_of columns ''geojson_geometry'' = Some name \<longrightarrow> map_of schema name = Some ''STRING'')
        \<and> (name \<notin> set (configured_names columns) \<longrightarrow>
             map_of schema name = infer_column (column_values name lines))" for name
    unfolding schema
    using schema_geometry_geometry [of columns name s] schema_geometry_geojson [of columns name s]
      schema_geometry_geojson_geometry [of columns name s] schema_geometry_other [of name columns s]
      d(1,2) [of name] s
    by auto
  from len row sch show ?thesis by blast
qed

theorem geometry_columns_as_configured_witness:
  "geojson_to_ndjson (\<lambda>j. if j = JDict [(''type'', JStr ''Point'')] then ''POINT'' else ''FEATURE'')
     [(''geojson_geometry'', ''geom_json'')]
     [[(''type'', JStr ''Feature''), (''properties'', JDict [(''name'', JStr ''a'')]),
       (''geometry'', JDict [(''type'', JStr ''Point'')])]]
   = Inr ([[(''name'', JStr ''a''), (''geom_json'', JStr ''POINT'')]],
          [(''name'', ''STRING''), (''geom_json'', ''STRING'')])
   \<and> distinct (configured_names [(''geojson_geometry'', ''geom_json'')])
   \<and> map_of [(''name'', ''STRING''), (''geom_json'', ''STRING'')] ''geom_json'' = Some ''STRING''
   \<and> map_of [(''name'', ''STRING''), (''geom_json'', ''STRING'')] ''geometry''
       = infer_column (column_values ''geometry''
           [[(''type'', JStr ''Feature''), (''properties'', JDict [(''name'', JStr ''a'')]),
             (''geometry'', JDict [(''type'', JStr ''Point'')])]])"
proof -
  let ?dumps = "\<lambda>j. if j = JDict [(''type'', JStr ''Point'')] then ''POINT'' else ''FEATURE''"
  let ?columns = "[(''geojson_geometry'', ''geom_json'')]"
  let ?lines = "[[(''type'', JStr ''Feature''), (''properties'', JDict [(''name'', JStr ''a'')]),
       (''geometry'', JDict [(''type'', JStr ''Point'')])]]"
  let ?rows = "[[(''name'', JStr ''a''), (''geom_json'', JStr ''POINT'')]]"
  let ?schema = "[(''name'', ''STRING''), (''geom_json'', ''STRING'')]"
  have run: "geojson_to_ndjson ?dumps ?columns ?lines = Inr (?rows, ?schema)"
    by (simp add: geojson_to_ndjson_def geometry_columns_def row_geometry_def row_geojson_def
        row_geojson_geometry_def schema_geometry_def schema_set_def get_column_type_string_value)
  have dist: "distinct (configured_names ?columns)"
    by (simp add: configured_names_eq)
  have out: "''geometry'' \<notin> set (configured_names ?columns)"
    by (simp add: configured_names_eq)
  from geometry_columns_as_configured [OF run dist] out
  have "map_of ?schema ''geom_json'' = Some ''STRING''
     \<and> map_of ?schema ''geometry'' = infer_column (column_values ''geometry'' ?lines)"
    by simp
  with run dist show ?thesis by simp
qed

text \<open>
  C4 as the specification states it, for every configuration, fails when two keys are
  given the same name: the later assignment replaces the earlier one, so the column
  configured for \<^verbatim>\<open>geometry\<close> holds the whole feature and has the type STRING.
\<close>

theorem shared_name_loses_geography_counterexample:
  "geojson_to_ndjson (\<lambda>j. if j = JNull then ''null'' else ''FEATURE'')
     [(''geometry'', ''g''), (''geojson'', ''g'')]
     [[(''type'', JStr ''Feature''), (''properties'', JDict []), (''geometry'', JNull)]]
   = Inr ([[(''g'', JStr ''FEATURE'')]], [(''g'', ''STRING'')])
   \<and> map_of [(''geometry'', ''g''), (''geojson'', ''g'')] ''geometry'' = Some ''g''
   \<and> map_of [(''g'', ''STRING'')] ''g'' \<noteq> Some ''GEOGRAPHY''"
  by (simp add: geojson_to_ndjson_def geometry_columns_def row_geometry_def row_geojson_def
      row_geojson_geometry_def schema_geometry_def schema_set_def)

end
